theory Spec2Isabelle
  imports Main "HOL-Library.Word" "HOL-Library.Multiset" "HOL-Library.AList" "HOL-Library.Sublist"
    "HOL-Library.Char_ord" "HOL-Library.List_Lexorder"
begin

chapter \<open>The model\<close>

section \<open>Errors\<close>

text \<open>
  The error values the history store and the library calls it makes can return.
  \<open>ErrInvalid\<close> is \<open>os.ErrInvalid\<close>; \<open>ErrSyntax\<close> and \<open>ErrRange\<close> are the two errors
  of \<open>strconv\<close>; \<open>ErrTooLong\<close> is \<open>bufio.ErrTooLong\<close>; \<open>ErrNotExist\<close> is the error
  for which \<open>os.IsNotExist\<close> holds; \<open>ErrIO\<close> stands for every other failure of the
  operating system (permissions, a full disk, a failed flush).
\<close>

datatype error = ErrInvalid | ErrSyntax | ErrRange | ErrTooLong | ErrNotExist | ErrIO

section \<open>Strings: the library functions used on file names\<close>

text \<open>
  Go strings and byte slices are byte sequences; both are \<^typ>\<open>string\<close> here
  (a \<^typ>\<open>char\<close> is one byte).
\<close>

text \<open>\<open>strings.HasSuffix\<close> and \<open>strings.TrimSuffix\<close>.\<close>

definition HasSuffix :: "string \<Rightarrow> string \<Rightarrow> bool" where
  "HasSuffix s suf =
     (length suf \<le> length s \<and> drop (length s - length suf) s = suf)"

definition TrimSuffix :: "string \<Rightarrow> string \<Rightarrow> string" where
  "TrimSuffix s suf =
     (if HasSuffix s suf then take (length s - length suf) s else s)"

text \<open>
  \<open>strings.Split\<close> for a separator of one byte: the pieces between the
  occurrences of the separator, one more piece than there are occurrences.
\<close>

fun Split :: "string \<Rightarrow> char \<Rightarrow> string list" where
  "Split [] sep = [[]]"
| "Split (c # cs) sep =
     (if c = sep then [] # Split cs sep
      else (case Split cs sep of p # ps \<Rightarrow> (c # p) # ps | [] \<Rightarrow> [[c]]))"

text \<open>
  \<open>filepath.Base\<close> on a system whose separator is the slash: the empty path gives
  a dot, trailing slashes are stripped, the last element is kept, and a path
  of slashes only gives one slash.
\<close>

fun strip_trailing_slashes :: "string \<Rightarrow> string" where
  "strip_trailing_slashes [] = []"
| "strip_trailing_slashes (c # cs) =
     (case strip_trailing_slashes cs of
        [] \<Rightarrow> (if c = CHR ''/'' then [] else [c])
      | r # rs \<Rightarrow> c # r # rs)"

definition Base :: "string \<Rightarrow> string" where
  "Base path =
     (if path = [] then ''.''
      else (let p = last (Split (strip_trailing_slashes path) (CHR ''/''))
            in if p = [] then ''/'' else p))"

text \<open>\<open>strings.Join\<close>: the elements with the separator between them.\<close>

fun strings_Join :: "string list \<Rightarrow> string \<Rightarrow> string" where
  "strings_Join [] sep = []"
| "strings_Join [e] sep = e"
| "strings_Join (e # es) sep = e @ sep @ strings_Join es sep"

text \<open>
  \<open>filepath.Clean\<close>, by its rules: empty elements and dots go; a \<open>..\<close> takes away
  the element before it, unless that is a \<open>..\<close> too; a rooted path does not
  keep a leading \<open>..\<close>; the empty result is a dot. The stack \<open>out\<close> has the
  elements kept so far, the last one first.
\<close>

fun clean_elems :: "bool \<Rightarrow> string list \<Rightarrow> string list \<Rightarrow> string list" where
  "clean_elems rooted out [] = rev out"
| "clean_elems rooted out (e # es) =
     (if e = [] \<or> e = ''.'' then clean_elems rooted out es
      else if e = ''..'' then
        (if out \<noteq> [] \<and> hd out \<noteq> ''..'' then clean_elems rooted (tl out) es
         else if rooted then clean_elems rooted out es
         else clean_elems rooted (e # out) es)
      else clean_elems rooted (e # out) es)"

definition Clean :: "string \<Rightarrow> string" where
  "Clean path =
     (let rooted = (path \<noteq> [] \<and> hd path = CHR ''/'');
          out = (if rooted then ''/'' else []) @
                strings_Join (clean_elems rooted [] (Split path (CHR ''/''))) ''/''
      in if out = [] then ''.'' else out)"


text \<open>\<open>filepath.Dir\<close>: the path up to its last slash, cleaned.\<close>

fun upto_last_slash :: "string \<Rightarrow> string" where
  "upto_last_slash [] = []"
| "upto_last_slash (c # cs) =
     (if CHR ''/'' \<in> set cs then c # upto_last_slash cs
      else if c = CHR ''/'' then [c] else [])"

definition Dir :: "string \<Rightarrow> string" where
  "Dir path = Clean (upto_last_slash path)"

subsection \<open>Decimal integers: \<open>strconv.FormatInt\<close> and \<open>strconv.ParseInt\<close>\<close>

definition digit_char :: "int \<Rightarrow> char" where
  "digit_char d = char_of (48 + d)"

definition is_digit :: "char \<Rightarrow> bool" where
  "is_digit c = (48 \<le> (of_char c :: int) \<and> (of_char c :: int) \<le> 57)"

definition digit_val :: "char \<Rightarrow> int" where
  "digit_val c = of_char c - 48"

text \<open>The decimal digits of a number that is not negative, most significant first.\<close>

function format_digits :: "int \<Rightarrow> string" where
  "format_digits n =
     (if n < 10 then [digit_char n] else format_digits (n div 10) @ [digit_char (n mod 10)])"
  by pat_completeness auto
termination
  by (relation "measure nat") auto

declare format_digits.simps [simp del]

text \<open>\<open>strconv.FormatInt(i, 10)\<close>: a minus sign for a negative number, then the digits.\<close>

definition FormatInt :: "int \<Rightarrow> string" where
  "FormatInt i = (if i < 0 then CHR ''-'' # format_digits (- i) else format_digits i)"

text \<open>
  \<open>strconv.ParseUint(s, 10, 64)\<close>: every byte must be a decimal digit (an
  underscore is accepted for base 0 only); the value must stay below \<open>2^64\<close>. The
  loop returns at the first byte that is wrong or that overflows.
\<close>

definition maxUint64 :: int where
  "maxUint64 = 2 ^ 64 - 1"

fun parse_uint_loop :: "int \<Rightarrow> string \<Rightarrow> error + int" where
  "parse_uint_loop n [] = Inr n"
| "parse_uint_loop n (c # cs) =
     (if \<not> is_digit c then Inl ErrSyntax
      else if n \<ge> maxUint64 div 10 + 1 then Inl ErrRange
      else (let n1 = n * 10 + digit_val c
            in if n1 > maxUint64 then Inl ErrRange else parse_uint_loop n1 cs))"

definition ParseUint :: "string \<Rightarrow> error + int" where
  "ParseUint s = (if s = [] then Inl ErrSyntax else parse_uint_loop 0 s)"

text \<open>
  \<open>strconv.ParseInt(s, 10, 64)\<close>: the empty string is a syntax error; one leading
  sign is picked off; the magnitude is parsed unsigned; a magnitude outside
  the range of a signed 64-bit integer is a range error.
\<close>

definition ParseInt :: "string \<Rightarrow> error + int" where
  "ParseInt s =
     (if s = [] then Inl ErrSyntax
      else (let neg = (hd s = CHR ''-'');
                s1 = (if hd s = CHR ''+'' \<or> hd s = CHR ''-'' then tl s else s)
            in (case ParseUint s1 of
                  Inl ErrSyntax \<Rightarrow> Inl ErrSyntax
                | Inl e \<Rightarrow> Inl ErrRange
                | Inr un \<Rightarrow>
                    if \<not> neg \<and> un \<ge> 2 ^ 63 then Inl ErrRange
                    else if neg \<and> un > 2 ^ 63 then Inl ErrRange
                    else Inr (if neg then - un else un))))"

section \<open>History file names\<close>

text \<open>
  \<open>ParseHistoryFilename\<close>: strip directory and extension, split at the dashes,
  and read the fourth and fifth piece as the start and the end of the range.
\<close>

definition ParseHistoryFilename :: "string \<Rightarrow> error + (int \<times> int)" where
  "ParseHistoryFilename name =
     (let base = TrimSuffix (Base name) ''.jsonl'';
          parts = Split base (CHR ''-'')
      in if length parts < 5 then Inl ErrInvalid
         else (case ParseInt (parts ! 3) of
                 Inl e \<Rightarrow> Inl e
               | Inr start \<Rightarrow>
                   (case ParseInt (parts ! 4) of
                      Inl e \<Rightarrow> Inl e
                    | Inr end' \<Rightarrow> Inr (start, end'))))"

text \<open>\<open>FileOverlapsRange\<close>: a name that does not parse overlaps nothing.\<close>

definition FileOverlapsRange :: "string \<Rightarrow> int \<Rightarrow> int \<Rightarrow> bool" where
  "FileOverlapsRange filename queryStart queryEnd =
     (case ParseHistoryFilename filename of
        Inl e \<Rightarrow> False
      | Inr (fileStart, fileEnd) \<Rightarrow> fileStart < queryEnd \<and> fileEnd > queryStart)"

text \<open>
  \<open>FilterFilesForRange\<close>: the loop over the files, appending to the result
  those that overlap. The accumulator is the variable \<open>result\<close>.
\<close>

fun filter_files_loop :: "string list \<Rightarrow> string list \<Rightarrow> int \<Rightarrow> int \<Rightarrow> string list" where
  "filter_files_loop result [] queryStart queryEnd = result"
| "filter_files_loop result (f # files) queryStart queryEnd =
     filter_files_loop
       (if FileOverlapsRange f queryStart queryEnd then result @ [f] else result)
       files queryStart queryEnd"

definition FilterFilesForRange :: "string list \<Rightarrow> int \<Rightarrow> int \<Rightarrow> string list" where
  "FilterFilesForRange files queryStart queryEnd = filter_files_loop [] files queryStart queryEnd"

section \<open>Numbers\<close>

text \<open>
  A Go \<open>int\<close> is a 64-bit machine integer on the platforms the program is built
  for; its addition wraps.
\<close>

type_synonym go_int = "64 word"

text \<open>
  A \<open>float64\<close> is an IEEE 754 binary64 number. Every finite binary64 number is
  an integer multiple of \<open>2^-1074\<close>, the smallest subnormal: \<open>Fin k\<close> is the number
  \<open>k * 2^-1074\<close>. The two zeros are one value here (Go's \<open>==\<close> does not separate
  them, and neither \<open>+\<close> nor \<open>>\<close> gives a different non-zero result for them).
\<close>

datatype float64 = NaN | PosInf | NegInf | Fin int

text \<open>The number of binary digits of a positive integer.\<close>

function bitlen :: "int \<Rightarrow> int" where
  "bitlen a = (if a \<le> 0 then 0 else 1 + bitlen (a div 2))"
  by pat_completeness auto
termination
  by (relation "measure nat") auto

declare bitlen.simps [simp del]

text \<open>
  Rounding of an exact result, given in units of \<open>2^-1074\<close>, to binary64: a
  magnitude of at most 53 binary digits is exact; a longer one keeps its
  leading 53 digits, rounded to nearest, ties to the even significand; a
  rounded magnitude of \<open>2^1024\<close> (\<open>2^2098\<close> units) or more is an infinity.
\<close>

definition round_f64 :: "int \<Rightarrow> float64" where
  "round_f64 n =
     (let a = \<bar>n\<bar>; b = bitlen a
      in if b \<le> 53 then Fin n
         else (let s = nat (b - 53);
                   q = a div 2 ^ s;
                   r = a mod 2 ^ s;
                   h = 2 ^ (s - 1);
                   q' = (if r > h \<or> (r = h \<and> odd q) then q + 1 else q);
                   m = q' * 2 ^ s
               in if m \<ge> 2 ^ 2098 then (if n < 0 then NegInf else PosInf)
                  else Fin (if n < 0 then - m else m)))"

text \<open>
  The values of the type that are binary64 numbers: \<open>Fin k\<close> is one when \<open>k\<close>
  needs no rounding.
\<close>

definition valid_f64 :: "float64 \<Rightarrow> bool" where
  "valid_f64 x = (case x of Fin k \<Rightarrow> round_f64 k = Fin k | _ \<Rightarrow> True)"

text \<open>
  The binary64 number with significand \<open>m\<close> and binary exponent \<open>e\<close>, that is
  \<open>m * 2^e\<close>, for \<open>e\<close> of at least \<open>-1074\<close>.
\<close>

definition f64 :: "int \<Rightarrow> int \<Rightarrow> float64" where
  "f64 m e = Fin (m * 2 ^ nat (e + 1074))"

text \<open>The \<open>+\<close> of \<open>float64\<close>: the exact sum of two finite numbers, rounded.\<close>

fun fadd :: "float64 \<Rightarrow> float64 \<Rightarrow> float64" where
  "fadd NaN y = NaN"
| "fadd x NaN = NaN"
| "fadd PosInf NegInf = NaN"
| "fadd NegInf PosInf = NaN"
| "fadd PosInf y = PosInf"
| "fadd NegInf y = NegInf"
| "fadd x PosInf = PosInf"
| "fadd x NegInf = NegInf"
| "fadd (Fin a) (Fin b) = round_f64 (a + b)"

text \<open>The \<open>>\<close> of \<open>float64\<close>: false whenever an operand is not a number.\<close>

fun fgt :: "float64 \<Rightarrow> float64 \<Rightarrow> bool" where
  "fgt NaN y = False"
| "fgt x NaN = False"
| "fgt PosInf y = (y \<noteq> PosInf)"
| "fgt NegInf y = False"
| "fgt (Fin a) PosInf = False"
| "fgt (Fin a) NegInf = True"
| "fgt (Fin a) (Fin b) = (a > b)"

section \<open>Time\<close>

text \<open>
  A \<open>time.Time\<close> is an instant, in nanoseconds since the Unix epoch. Every
  \<open>FullTimestamp\<close> of a record is in the local time zone of the process.
\<close>

datatype Time = Time (UnixNano: int)

definition Before :: "Time \<Rightarrow> Time \<Rightarrow> bool" where
  "Before t u = (UnixNano t < UnixNano u)"

definition After :: "Time \<Rightarrow> Time \<Rightarrow> bool" where
  "After t u = (UnixNano t > UnixNano u)"

text \<open>\<open>t.Unix()\<close>: the whole seconds since the epoch, rounded down.\<close>

definition Unix :: "Time \<Rightarrow> int" where
  "Unix t = UnixNano t div 1000000000"


text \<open>The zero value of \<open>time.Time\<close>: the first of January of the year 1, UTC.\<close>

definition zero_Time :: Time where
  "zero_Time = Time (- 62135596800 * 1000000000)"

section \<open>Calendar days and time zones\<close>

text \<open>
  A \<open>time.Location\<close> is, for this program, its function \<open>lookup\<close>: for a second
  since the epoch it gives the offset from UTC in effect, in seconds, and the
  first and the last-but-one second of the period in which that offset is in
  effect. \<open>UTC\<close> has the offset zero at all times.
\<close>

type_synonym Location = "int \<Rightarrow> int \<times> int \<times> int"

definition UTC :: Location where
  "UTC = (\<lambda>sec. (0, - (2 ^ 63), 2 ^ 63 - 1))"

text \<open>
  The days from the first of January 1970 to a day of the proleptic Gregorian
  calendar, and back. A day of the month beyond the end of the month counts
  into the next month, as \<open>time.Date\<close> normalises it.
\<close>

definition days_from_civil :: "int \<Rightarrow> int \<Rightarrow> int \<Rightarrow> int" where
  "days_from_civil year month day =
     (let y = (if month \<le> 2 then year - 1 else year);
          era = y div 400;
          yoe = y - era * 400;
          doy = (153 * (if month > 2 then month - 3 else month + 9) + 2) div 5 + day - 1;
          doe = yoe * 365 + yoe div 4 - yoe div 100 + doy
      in era * 146097 + doe - 719468)"

definition civil_from_days :: "int \<Rightarrow> int \<times> int \<times> int" where
  "civil_from_days z =
     (let z' = z + 719468;
          era = z' div 146097;
          doe = z' - era * 146097;
          yoe = (doe - doe div 1460 + doe div 36524 - doe div 146096) div 365;
          y = yoe + era * 400;
          doy = doe - (365 * yoe + yoe div 4 - yoe div 100);
          mp = (5 * doy + 2) div 153;
          d = doy - (153 * mp + 2) div 5 + 1;
          m = (if mp < 10 then mp + 3 else mp - 9)
      in (if m \<le> 2 then y + 1 else y, m, d))"

text \<open>\<open>t.Date()\<close> and \<open>t.Clock()\<close> of a time in the location \<open>loc\<close>.\<close>

definition Date_of :: "Location \<Rightarrow> Time \<Rightarrow> int \<times> int \<times> int" where
  "Date_of loc t =
     (case loc (Unix t) of (offset, start, end') \<Rightarrow> civil_from_days ((Unix t + offset) div 86400))"

definition Clock_of :: "Location \<Rightarrow> Time \<Rightarrow> int \<times> int \<times> int" where
  "Clock_of loc t =
     (case loc (Unix t) of (offset, start, end') \<Rightarrow>
        (let s = (Unix t + offset) mod 86400 in (s div 3600, (s mod 3600) div 60, s mod 60)))"

text \<open>
  \<open>time.Date(year, month, day, hour, min, sec, nsec, loc)\<close>: the seconds of the
  wall clock reading as if in UTC, then the offset of the location taken off.
  The offset is looked up at the reading itself; when the result does not lie
  in the period found, it is looked up again at the result.
\<close>

definition time_Date :: "int \<Rightarrow> int \<Rightarrow> int \<Rightarrow> int \<Rightarrow> int \<Rightarrow> int \<Rightarrow> int \<Rightarrow> Location \<Rightarrow> Time" where
  "time_Date year month day hour minute sec nsec loc =
     (let m0 = month - 1;
          unix = days_from_civil (year + m0 div 12) (m0 mod 12 + 1) day * 86400
                 + hour * 3600 + minute * 60 + sec + nsec div 1000000000;
          unix' = (case loc unix of (offset, start, end') \<Rightarrow>
                     if offset \<noteq> 0
                     then (let utc = unix - offset
                           in if utc < start \<or> utc \<ge> end'
                              then (case loc utc of (offset', start', end'') \<Rightarrow> unix - offset')
                              else unix - offset)
                     else unix)
      in Time (unix' * 1000000000 + nsec mod 1000000000))"

text \<open>\<open>t.AddDate(0, 0, days)\<close>.\<close>

definition AddDate_days :: "Location \<Rightarrow> Time \<Rightarrow> int \<Rightarrow> Time" where
  "AddDate_days loc t days =
     (case Date_of loc t of (year, month, day) \<Rightarrow>
        (case Clock_of loc t of (hour, minute, sec) \<Rightarrow>
           time_Date year month (day + days) hour minute sec (UnixNano t mod 1000000000) loc))"

text \<open>
  The decimal form of a number with zeros in front up to a width, with a
  minus sign before a negative number; and \<open>t.Format("2006-01-02")\<close>.
\<close>

definition pad_int :: "int \<Rightarrow> nat \<Rightarrow> string" where
  "pad_int x width =
     (let ds = format_digits \<bar>x\<bar>
      in (if x < 0 then ''-'' else []) @ replicate (width - length ds) (CHR ''0'') @ ds)"

definition Format_date :: "Location \<Rightarrow> Time \<Rightarrow> string" where
  "Format_date loc t =
     (case Date_of loc t of (year, month, day) \<Rightarrow>
        pad_int year 4 @ ''-'' @ pad_int month 2 @ ''-'' @ pad_int day 2)"

section \<open>The name of the history file of a day\<close>

definition HistoryFilename :: "Location \<Rightarrow> Time \<Rightarrow> string" where
  "HistoryFilename loc t =
     (case Date_of loc t of (y, m, d) \<Rightarrow>
        (let startOfDay = time_Date y m d 0 0 0 0 loc;
             endOfDay = AddDate_days loc startOfDay 1
         in Format_date loc startOfDay @ ''-'' @ FormatInt (Unix startOfDay) @ ''-'' @
            FormatInt (Unix endOfDay) @ ''.jsonl''))"

section \<open>Records and metrics\<close>

record CostRecord =
  UUID :: string
  RequestID :: "string option"
  Cost :: float64
  InputTokens :: go_int
  OutputTokens :: go_int
  CacheReadTokens :: go_int
  CacheWriteTokens :: go_int
  InputCost :: float64
  OutputCost :: float64
  CacheReadCost :: float64
  CacheWriteCost :: float64
  PricingKey :: string
  Timestamp :: string
  FullTimestamp :: Time
  Hour :: go_int
  Weekday :: string
  Cwd :: string
  GitBranch :: string
  FromHistory :: bool
  RawLine :: string

text \<open>
  The fields of \<open>Metrics\<close> carry the prefix \<open>m\<close>: they have the names of fields
  of \<open>CostRecord\<close> in the source.
\<close>

record Metrics =
  mCost :: float64
  mInputTokens :: go_int
  mOutputTokens :: go_int
  mCacheReadTokens :: go_int
  mCacheWriteTokens :: go_int
  mInputCost :: float64
  mOutputCost :: float64
  mCacheReadCost :: float64
  mCacheWriteCost :: float64

text \<open>The zero value \<open>Metrics{}\<close>.\<close>

definition zero_Metrics :: Metrics where
  "zero_Metrics =
     \<lparr>mCost = Fin 0, mInputTokens = 0, mOutputTokens = 0, mCacheReadTokens = 0,
      mCacheWriteTokens = 0, mInputCost = Fin 0, mOutputCost = Fin 0,
      mCacheReadCost = Fin 0, mCacheWriteCost = Fin 0\<rparr>"

text \<open>
  The merge of one \<open>Metrics\<close> into a running total, as \<open>renderTable\<close> and
  \<open>renderSummary\<close> do it for the grand total and the subtotals: nine \<open>+=\<close>.
\<close>

definition add_Metrics :: "Metrics \<Rightarrow> Metrics \<Rightarrow> Metrics" where
  "add_Metrics totalMetrics m =
     \<lparr>mCost = fadd (mCost totalMetrics) (mCost m),
      mInputTokens = mInputTokens totalMetrics + mInputTokens m,
      mOutputTokens = mOutputTokens totalMetrics + mOutputTokens m,
      mCacheReadTokens = mCacheReadTokens totalMetrics + mCacheReadTokens m,
      mCacheWriteTokens = mCacheWriteTokens totalMetrics + mCacheWriteTokens m,
      mInputCost = fadd (mInputCost totalMetrics) (mInputCost m),
      mOutputCost = fadd (mOutputCost totalMetrics) (mOutputCost m),
      mCacheReadCost = fadd (mCacheReadCost totalMetrics) (mCacheReadCost m),
      mCacheWriteCost = fadd (mCacheWriteCost totalMetrics) (mCacheWriteCost m)\<rparr>"

definition valid_Metrics :: "Metrics \<Rightarrow> bool" where
  "valid_Metrics m =
     (valid_f64 (mCost m) \<and> valid_f64 (mInputCost m) \<and> valid_f64 (mOutputCost m) \<and>
      valid_f64 (mCacheReadCost m) \<and> valid_f64 (mCacheWriteCost m))"

text \<open>The fold of one record into the metrics of its group: the same nine \<open>+=\<close>.\<close>

definition add_record :: "Metrics \<Rightarrow> CostRecord \<Rightarrow> Metrics" where
  "add_record m record =
     \<lparr>mCost = fadd (mCost m) (Cost record),
      mInputTokens = mInputTokens m + InputTokens record,
      mOutputTokens = mOutputTokens m + OutputTokens record,
      mCacheReadTokens = mCacheReadTokens m + CacheReadTokens record,
      mCacheWriteTokens = mCacheWriteTokens m + CacheWriteTokens record,
      mInputCost = fadd (mInputCost m) (InputCost record),
      mOutputCost = fadd (mOutputCost m) (OutputCost record),
      mCacheReadCost = fadd (mCacheReadCost m) (CacheReadCost record),
      mCacheWriteCost = fadd (mCacheWriteCost m) (CacheWriteCost record)\<rparr>"

section \<open>The deduplicating accumulator\<close>

text \<open>
  Of a \<open>GroupConfig\<close> the accumulator uses the function \<open>BuildGroupKey\<close> only.
  The two configurations given here are the entries \<open>day\<close> (also the default)
  and \<open>model\<close> of \<open>getGroupConfig\<close>.
\<close>

record GroupConfig =
  BuildGroupKey :: "CostRecord \<Rightarrow> string"

definition config_day :: GroupConfig where
  "config_day = \<lparr>BuildGroupKey = (\<lambda>record. Timestamp record)\<rparr>"

definition config_model :: GroupConfig where
  "config_model = \<lparr>BuildGroupKey = (\<lambda>record. PricingKey record)\<rparr>"

text \<open>
  The variables of \<open>main\<close> that the accumulator goroutine writes, and its two
  local maps. A \<open>map[string]bool\<close> in which only \<open>true\<close> is ever stored is a
  set of strings.
\<close>

record acc_state =
  metricsByGroup :: "string \<rightharpoonup> Metrics"
  allRecords :: "CostRecord list"
  claudeRecords :: "CostRecord list"
  historyUUIDs :: "string set"
  claudeMinTime :: Time
  claudeMaxTime :: Time
  claudeTimeInitialized :: bool
  maxCostByRequestID :: "string \<rightharpoonup> CostRecord"
  seenUUIDs :: "string set"

definition init_acc :: acc_state where
  "init_acc =
     \<lparr>metricsByGroup = Map.empty, allRecords = [], claudeRecords = [],
      historyUUIDs = {}, claudeMinTime = zero_Time, claudeMaxTime = zero_Time,
      claudeTimeInitialized = False, maxCostByRequestID = Map.empty, seenUUIDs = {}\<rparr>"

text \<open>Reading a map of metrics at a key that is absent gives the zero value.\<close>

definition lookup_Metrics :: "(string \<rightharpoonup> Metrics) \<Rightarrow> string \<Rightarrow> Metrics" where
  "lookup_Metrics ms k = (case ms k of None \<Rightarrow> zero_Metrics | Some m \<Rightarrow> m)"

text \<open>
  The block that folds one record into \<open>metricsByGroup\<close> and appends it to
  \<open>allRecords\<close>; the source has it twice, in the loop and in the second pass.
\<close>

definition fold_record :: "GroupConfig \<Rightarrow> acc_state \<Rightarrow> CostRecord \<Rightarrow> acc_state" where
  "fold_record cfg st record =
     (let groupKey = BuildGroupKey cfg record;
          m = lookup_Metrics (metricsByGroup st) groupKey
      in st\<lparr>metricsByGroup := (metricsByGroup st)(groupKey \<mapsto> add_record m record),
            allRecords := allRecords st @ [record]\<rparr>)"

text \<open>Tracking of a record from the primary logs: the list and the time range.\<close>

definition track_claude :: "acc_state \<Rightarrow> CostRecord \<Rightarrow> acc_state" where
  "track_claude st record =
     (let st' = st\<lparr>claudeRecords := claudeRecords st @ [record]\<rparr>
      in if \<not> claudeTimeInitialized st'
         then st'\<lparr>claudeMinTime := FullTimestamp record,
                  claudeMaxTime := FullTimestamp record,
                  claudeTimeInitialized := True\<rparr>
         else (let st'' = (if Before (FullTimestamp record) (claudeMinTime st')
                           then st'\<lparr>claudeMinTime := FullTimestamp record\<rparr> else st')
               in if After (FullTimestamp record) (claudeMaxTime st'')
                  then st''\<lparr>claudeMaxTime := FullTimestamp record\<rparr> else st''))"

text \<open>The body of the loop over the record channel, for one record.\<close>

definition accumulate :: "GroupConfig \<Rightarrow> acc_state \<Rightarrow> CostRecord \<Rightarrow> acc_state" where
  "accumulate cfg st record =
     (let st1 = (if FromHistory record \<and> UUID record \<noteq> []
                 then st\<lparr>historyUUIDs := insert (UUID record) (historyUUIDs st)\<rparr> else st);
          st2 = (if \<not> FromHistory record \<and> length (RawLine record) > 0
                 then track_claude st1 record else st1)
      in (case RequestID record of
            Some requestID \<Rightarrow>
              (case maxCostByRequestID st2 requestID of
                 None \<Rightarrow> st2\<lparr>maxCostByRequestID := (maxCostByRequestID st2)(requestID \<mapsto> record)\<rparr>
               | Some existing \<Rightarrow>
                   if fgt (Cost record) (Cost existing)
                   then st2\<lparr>maxCostByRequestID := (maxCostByRequestID st2)(requestID \<mapsto> record)\<rparr>
                   else st2)
          | None \<Rightarrow>
              if UUID record \<noteq> [] \<and> UUID record \<in> seenUUIDs st2 then st2
              else fold_record cfg
                     (if UUID record \<noteq> []
                      then st2\<lparr>seenUUIDs := insert (UUID record) (seenUUIDs st2)\<rparr> else st2)
                     record))"

text \<open>The loop over the record channel: the records in the order of their arrival.\<close>

fun accumulate_all :: "GroupConfig \<Rightarrow> acc_state \<Rightarrow> CostRecord list \<Rightarrow> acc_state" where
  "accumulate_all cfg st [] = st"
| "accumulate_all cfg st (record # records) = accumulate_all cfg (accumulate cfg st record) records"

text \<open>
  The second pass ranges over \<open>maxCostByRequestID\<close>. Go leaves the order of the
  keys of a map open; it visits each key once. The order is a parameter: a
  list \<open>order\<close> is an iteration order of a map when it has each key of the map
  exactly once.
\<close>

definition map_iteration :: "('k \<rightharpoonup> 'v) \<Rightarrow> 'k list \<Rightarrow> bool" where
  "map_iteration m order = (distinct order \<and> set order = dom m)"

fun fold_retained :: "GroupConfig \<Rightarrow> acc_state \<Rightarrow> string list \<Rightarrow> acc_state" where
  "fold_retained cfg st [] = st"
| "fold_retained cfg st (k # order) =
     fold_retained cfg
       (case maxCostByRequestID st k of None \<Rightarrow> st | Some record \<Rightarrow> fold_record cfg st record)
       order"

text \<open>The accumulator goroutine: the loop until the channel is closed, then the second pass.\<close>

definition accumulator :: "GroupConfig \<Rightarrow> string list \<Rightarrow> CostRecord list \<Rightarrow> acc_state" where
  "accumulator cfg order records = fold_retained cfg (accumulate_all cfg init_acc records) order"

text \<open>
  The metrics that folding a list of records one after the other gives; used
  to say that \<open>metricsByGroup\<close> holds the folds of \<open>allRecords\<close> and nothing else.
\<close>

fun metrics_of :: "GroupConfig \<Rightarrow> (string \<rightharpoonup> Metrics) \<Rightarrow> CostRecord list \<Rightarrow> (string \<rightharpoonup> Metrics)" where
  "metrics_of cfg ms [] = ms"
| "metrics_of cfg ms (record # records) =
     metrics_of cfg
       (ms(BuildGroupKey cfg record \<mapsto> add_record (lookup_Metrics ms (BuildGroupKey cfg record)) record))
       records"

section \<open>Notions used in the statements\<close>


text \<open>\<open>metricsByGroup\<close> holds the folds of the records of \<open>allRecords\<close>, in their order.\<close>

definition folded_invariant :: "GroupConfig \<Rightarrow> acc_state \<Rightarrow> bool" where
  "folded_invariant cfg st = (metricsByGroup st = metrics_of cfg Map.empty (allRecords st))"

section \<open>Example inputs\<close>

text \<open>
  A record of the fifth of January 2024 with no identifiers and no usage; the
  examples below change some of its fields. The costs \<open>1.0\<close> and \<open>2.5\<close> are
  \<open>f64 1 0\<close> and \<open>f64 5 (-1)\<close>.
\<close>

definition blank_record :: CostRecord where
  "blank_record =
     \<lparr>UUID = [], RequestID = None, Cost = Fin 0, InputTokens = 0, OutputTokens = 0,
      CacheReadTokens = 0, CacheWriteTokens = 0, InputCost = Fin 0, OutputCost = Fin 0,
      CacheReadCost = Fin 0, CacheWriteCost = Fin 0, PricingKey = ''opus'',
      Timestamp = ''2024-01-05'', FullTimestamp = Time 1704456000000000000, Hour = 12,
      Weekday = ''Fri'', Cwd = [], GitBranch = [], FromHistory = False, RawLine = ''{}''\<rparr>"

definition record_a :: CostRecord where
  "record_a = blank_record\<lparr>UUID := ''a'', RequestID := Some ''r1'', Cost := f64 1 0\<rparr>"


section \<open>Notions used in the statements on deduplication by UUID\<close>

text \<open>The amounts of a record, as the \<open>Metrics\<close> that folding it adds.\<close>

definition metrics_part :: "CostRecord \<Rightarrow> Metrics" where
  "metrics_part record =
     \<lparr>mCost = Cost record, mInputTokens = InputTokens record,
      mOutputTokens = OutputTokens record, mCacheReadTokens = CacheReadTokens record,
      mCacheWriteTokens = CacheWriteTokens record, mInputCost = InputCost record,
      mOutputCost = OutputCost record, mCacheReadCost = CacheReadCost record,
      mCacheWriteCost = CacheWriteCost record\<rparr>"

text \<open>What a record contributes when it is folded: its group and its amounts.\<close>

definition contribution :: "GroupConfig \<Rightarrow> CostRecord \<Rightarrow> string \<times> Metrics" where
  "contribution cfg record = (BuildGroupKey cfg record, metrics_part record)"

text \<open>
  The records without request identifier that the loop folds, given the set
  \<open>seen\<close> of UUIDs folded before: a record with a UUID in \<open>seen\<close> is dropped.
\<close>

fun folded_in_loop :: "string set \<Rightarrow> CostRecord list \<Rightarrow> CostRecord list" where
  "folded_in_loop seen [] = []"
| "folded_in_loop seen (r # rs) =
     (if RequestID r \<noteq> None then folded_in_loop seen rs
      else if UUID r \<noteq> [] \<and> UUID r \<in> seen then folded_in_loop seen rs
      else r # folded_in_loop (if UUID r \<noteq> [] then insert (UUID r) seen else seen) rs)"

text \<open>
  Records that share a non-empty UUID and have no request identifier are
  copies of one event: they have the same group and the same amounts.
\<close>

definition duplicates_agree :: "GroupConfig \<Rightarrow> CostRecord list \<Rightarrow> bool" where
  "duplicates_agree cfg records =
     (\<forall>r\<in>set records. \<forall>r'\<in>set records.
        RequestID r = None \<and> RequestID r' = None \<and> UUID r \<noteq> [] \<and> UUID r = UUID r'
        \<longrightarrow> contribution cfg r = contribution cfg r')"

text \<open>
  Three records without request identifier, with different UUIDs and the costs
  \<open>0.1\<close>, \<open>0.2\<close> and \<open>0.3\<close>.
\<close>

definition record_u1 :: CostRecord where
  "record_u1 = blank_record\<lparr>UUID := ''u1'', Cost := f64 7205759403792794 (- 56)\<rparr>"

definition record_u2 :: CostRecord where
  "record_u2 = blank_record\<lparr>UUID := ''u2'', Cost := f64 7205759403792794 (- 55)\<rparr>"

definition record_u3 :: CostRecord where
  "record_u3 = blank_record\<lparr>UUID := ''u3'', Cost := f64 5404319552844595 (- 54)\<rparr>"

text \<open>
  An event without request identifier, as read from a primary log and as read
  back from a history file, and a record with the same UUID and another cost.
\<close>

definition record_dup :: CostRecord where
  "record_dup = blank_record\<lparr>UUID := ''a'', Cost := f64 1 0, InputTokens := 100\<rparr>"

definition record_dup_history :: CostRecord where
  "record_dup_history = record_dup\<lparr>FromHistory := True\<rparr>"

definition record_dup_other :: CostRecord where
  "record_dup_other = blank_record\<lparr>UUID := ''a'', Cost := f64 5 (- 1)\<rparr>"

text \<open>The UUIDs of the records without request identifier that have one.\<close>

definition loop_uuids :: "CostRecord list \<Rightarrow> string set" where
  "loop_uuids rs = {u. \<exists>r\<in>set rs. RequestID r = None \<and> UUID r \<noteq> [] \<and> UUID r = u}"

section \<open>The file system\<close>

text \<open>
  The part of the operating system the history store talks to. \<open>fs_files\<close> has the
  regular files and their bytes, as an association list from paths; \<open>fs_dirs\<close> the
  directories; \<open>stable\<close> the bytes of a file that have reached stable storage.
  \<open>XDG_DATA_HOME\<close> and \<open>HOME\<close> are the two environment variables read (empty
  when unset). The remaining fields say which calls the system refuses: a call
  on a path fails with the error given for it, and \<open>write_limit\<close> is the number
  of bytes that can still be written to a file before a write fails (no limit
  when \<open>None\<close>).
\<close>

record fsys =
  fs_files :: "(string \<times> string) list"
  fs_dirs :: "string set"
  stable :: "string \<rightharpoonup> string"
  XDG_DATA_HOME :: string
  HOME :: string
  mkdir_err :: "string \<Rightarrow> error option"
  open_err :: "string \<Rightarrow> error option"
  write_limit :: "string \<Rightarrow> nat option"
  sync_err :: "string \<Rightarrow> error option"
  read_err :: "string \<Rightarrow> error option"
  readdir_err :: "string \<Rightarrow> error option"

definition content :: "fsys \<Rightarrow> string \<rightharpoonup> string" where
  "content fs = map_of (fs_files fs)"






subsection \<open>Reading lines: \<open>bufio.Scanner\<close>\<close>

text \<open>\<open>dropCR\<close>: one carriage return at the end of a line is dropped.\<close>

definition dropCR :: "string \<Rightarrow> string" where
  "dropCR data = (if data \<noteq> [] \<and> last data = CHR 0x0D then butlast data else data)"

text \<open>
  The lines a scanner with the line splitter gives for the bytes of a file,
  and its final error. \<open>cur\<close> is the part of the current line read so far. A
  line ends at a newline or at the end of the file; an empty rest at the end
  of the file is no line. When the current line, without a newline, fills the
  buffer at its largest size \<open>maxTokenSize\<close>, the scanner stops with
  \<open>ErrTooLong\<close>.
\<close>

fun scan_lines :: "int \<Rightarrow> string \<Rightarrow> string \<Rightarrow> string list \<times> error option" where
  "scan_lines maxTokenSize cur [] =
     (if cur = [] then ([], None)
      else if int (length cur) \<ge> maxTokenSize then ([], Some ErrTooLong)
      else ([dropCR cur], None))"
| "scan_lines maxTokenSize cur (c # cs) =
     (if int (length cur) \<ge> maxTokenSize then ([], Some ErrTooLong)
      else if c = CHR 0x0A
      then (case scan_lines maxTokenSize [] cs of (ls, err) \<Rightarrow> (dropCR cur # ls, err))
      else scan_lines maxTokenSize (cur @ [c]) cs)"

subsection \<open>\<open>LoadUUIDs\<close>\<close>

text \<open>
  The decoding of a line into a struct with the one field \<open>uuid\<close> is done by
  the JSON library; it is the parameter \<open>unmarshal\<close>: \<open>None\<close> when the library
  returns an error, otherwise the value of the field (empty when the line has
  no such field).
\<close>

type_synonym unmarshal_uuid = "string \<Rightarrow> string option"

text \<open>The loop of \<open>LoadUUIDs\<close> over the lines; \<open>ids\<close> is the set built so far.\<close>

fun load_loop :: "unmarshal_uuid \<Rightarrow> string set \<Rightarrow> string list \<Rightarrow> string set" where
  "load_loop unmarshal ids [] = ids"
| "load_loop unmarshal ids (line # lines) =
     (if length line = 0 then load_loop unmarshal ids lines
      else (case unmarshal line of
              None \<Rightarrow> load_loop unmarshal ids lines
            | Some uuid \<Rightarrow>
                load_loop unmarshal (if uuid \<noteq> [] then insert uuid ids else ids) lines))"

text \<open>\<open>os.Open\<close> for reading, and the bytes of the file.\<close>

definition Open_read :: "fsys \<Rightarrow> string \<Rightarrow> error + string" where
  "Open_read fs file =
     (case read_err fs file of
        Some err \<Rightarrow> Inl err
      | None \<Rightarrow> (case content fs file of None \<Rightarrow> Inl ErrNotExist | Some bytes \<Rightarrow> Inr bytes))"

text \<open>
  \<open>LoadUUIDs\<close> returns a set and an error. A file that does not exist gives the
  empty set and no error; another failure to open gives the error (and the
  nil map, read as the empty set); otherwise the set of the UUIDs of the
  lines, with the error of the scanner. The largest line is ten megabytes.
\<close>

definition load_maxTokenSize :: int where
  "load_maxTokenSize = 10 * 1024 * 1024"

definition LoadUUIDs :: "unmarshal_uuid \<Rightarrow> fsys \<Rightarrow> string \<Rightarrow> string set \<times> error option" where
  "LoadUUIDs unmarshal fs file =
     (case Open_read fs file of
        Inl ErrNotExist \<Rightarrow> ({}, None)
      | Inl err \<Rightarrow> ({}, Some err)
      | Inr bytes \<Rightarrow>
          (case scan_lines load_maxTokenSize [] bytes of
             (lines, err) \<Rightarrow> (load_loop unmarshal {} lines, err)))"

subsection \<open>\<open>AppendRawLines\<close>\<close>

text \<open>
  \<open>os.MkdirAll\<close>: the directory and its parents exist afterwards, unless the
  system refuses.
\<close>

definition ancestors :: "string \<Rightarrow> string list" where
  "ancestors dir =
     map (\<lambda>i. take i dir) (filter (\<lambda>i. dir ! i = CHR ''/'') [1..<length dir]) @ [dir]"

definition MkdirAll :: "fsys \<Rightarrow> string \<Rightarrow> fsys \<times> error option" where
  "MkdirAll fs dir =
     (case mkdir_err fs dir of
        Some err \<Rightarrow> (fs, Some err)
      | None \<Rightarrow> (fs\<lparr>fs_dirs := fs_dirs fs \<union> set (ancestors dir)\<rparr>, None))"

text \<open>
  \<open>os.OpenFile\<close> with \<open>O_APPEND|O_CREATE|O_WRONLY\<close>: the file is created empty
  when it is absent; nothing else changes.
\<close>

definition OpenFile_append :: "fsys \<Rightarrow> string \<Rightarrow> fsys \<times> error option" where
  "OpenFile_append fs file =
     (case open_err fs file of
        Some err \<Rightarrow> (fs, Some err)
      | None \<Rightarrow>
          (case content fs file of
             None \<Rightarrow> (fs\<lparr>fs_files := AList.update file [] (fs_files fs)\<rparr>, None)
           | Some bytes \<Rightarrow> (fs, None)))"

text \<open>
  \<open>f.Write\<close> on a file opened for appending: the bytes go to the end of the
  file. When fewer bytes can be written than asked for, those are written and
  the write fails.
\<close>

definition Write :: "fsys \<Rightarrow> string \<Rightarrow> string \<Rightarrow> fsys \<times> error option" where
  "Write fs file b =
     (let old = (case content fs file of None \<Rightarrow> [] | Some bytes \<Rightarrow> bytes)
      in (case write_limit fs file of
            None \<Rightarrow> (fs\<lparr>fs_files := AList.update file (old @ b) (fs_files fs)\<rparr>, None)
          | Some n \<Rightarrow>
              if length b \<le> n
              then (fs\<lparr>fs_files := AList.update file (old @ b) (fs_files fs),
                       write_limit := (write_limit fs)(file := Some (n - length b))\<rparr>, None)
              else (fs\<lparr>fs_files := AList.update file (old @ take n b) (fs_files fs),
                       write_limit := (write_limit fs)(file := Some 0)\<rparr>, Some ErrIO)))"

text \<open>\<open>f.Sync\<close>: the bytes of the file reach stable storage, unless the system refuses.\<close>

definition Sync :: "fsys \<Rightarrow> string \<Rightarrow> fsys \<times> error option" where
  "Sync fs file =
     (case sync_err fs file of
        Some err \<Rightarrow> (fs, Some err)
      | None \<Rightarrow> (fs\<lparr>stable := (stable fs)(file := content fs file)\<rparr>, None))"

text \<open>The loop of \<open>AppendRawLines\<close>: each line, then a newline; the first failure ends it.\<close>

fun write_lines :: "fsys \<Rightarrow> string \<Rightarrow> string list \<Rightarrow> fsys \<times> error option" where
  "write_lines fs file [] = (fs, None)"
| "write_lines fs file (line # lines) =
     (case Write fs file line of
        (fs1, Some err) \<Rightarrow> (fs1, Some err)
      | (fs1, None) \<Rightarrow>
          (case Write fs1 file [CHR 0x0A] of
             (fs2, Some err) \<Rightarrow> (fs2, Some err)
           | (fs2, None) \<Rightarrow> write_lines fs2 file lines))"

definition AppendRawLines :: "fsys \<Rightarrow> string \<Rightarrow> string list \<Rightarrow> fsys \<times> error option" where
  "AppendRawLines fs file lines =
     (if length lines = 0 then (fs, None)
      else (case MkdirAll fs (Dir file) of
              (fs1, Some err) \<Rightarrow> (fs1, Some err)
            | (fs1, None) \<Rightarrow>
                (case OpenFile_append fs1 file of
                   (fs2, Some err) \<Rightarrow> (fs2, Some err)
                 | (fs2, None) \<Rightarrow>
                     (case write_lines fs2 file lines of
                        (fs3, Some err) \<Rightarrow> (fs3, Some err)
                      | (fs3, None) \<Rightarrow> Sync fs3 file))))"

section \<open>Notions used in the statements on the history store\<close>

text \<open>The bytes that a batch of lines adds to a file: each line, then a newline.\<close>

definition batch_bytes :: "string list \<Rightarrow> string" where
  "batch_bytes lines = concat (map (\<lambda>line. line @ [CHR 0x0A]) lines)"

text \<open>The bytes of a file; none when the file does not exist.\<close>

definition old_bytes :: "fsys \<Rightarrow> string \<Rightarrow> string" where
  "old_bytes fs file = (case content fs file of None \<Rightarrow> [] | Some bytes \<Rightarrow> bytes)"

text \<open>What no call of the history store changes: the environment and the refusals
  other than the write limit.\<close>

definition same_env :: "fsys \<Rightarrow> fsys \<Rightarrow> bool" where
  "same_env fs fs' =
     (XDG_DATA_HOME fs' = XDG_DATA_HOME fs \<and> HOME fs' = HOME fs \<and> mkdir_err fs' = mkdir_err fs \<and>
      open_err fs' = open_err fs \<and> sync_err fs' = sync_err fs \<and> read_err fs' = read_err fs \<and>
      readdir_err fs' = readdir_err fs)"

text \<open>A line as a scanner can return it, and write it back: no newline in it, no
  carriage return at its end, and shorter than the largest line.\<close>

definition raw_line :: "int \<Rightarrow> string \<Rightarrow> bool" where
  "raw_line maxTokenSize line =
     (CHR 0x0A \<notin> set line \<and> int (length line) < maxTokenSize \<and> dropCR line = line)"

text \<open>The UUIDs that the lines of a list carry.\<close>

definition uuids_of :: "unmarshal_uuid \<Rightarrow> string list \<Rightarrow> string set" where
  "uuids_of unmarshal lines =
     {uuid. \<exists>line\<in>set lines. line \<noteq> [] \<and> unmarshal line = Some uuid \<and> uuid \<noteq> []}"

text \<open>The system refuses nothing that \<open>AppendRawLines\<close> asks for a file.\<close>

definition no_refusal :: "fsys \<Rightarrow> string \<Rightarrow> bool" where
  "no_refusal fs file =
     (mkdir_err fs (Dir file) = None \<and> open_err fs file = None \<and> write_limit fs file = None \<and>
      sync_err fs file = None)"

section \<open>Example files\<close>

text \<open>
  Three lines of a log: two events, and a line that a crash cut short. The
  decoder \<open>example_unmarshal\<close> stands for the JSON library in the examples; it
  reads lines of the two shapes \<open>{}\<close> and \<open>{"uuid":"..."}\<close>, as the library
  does, and fails on every other line.
\<close>

definition line_a1 :: string where
  \<open>line_a1 = ''{"uuid":"a1"}''\<close>

definition line_b2 :: string where
  \<open>line_b2 = ''{"uuid":"b2"}''\<close>

definition line_cut :: string where
  \<open>line_cut = ''{"uuid":"c''\<close>

definition example_unmarshal :: unmarshal_uuid where
  \<open>example_unmarshal line =
     (if line = ''{}'' then Some []
      else if length line \<ge> 11 \<and> take 9 line = ''{"uuid":"'' \<and>
              drop (length line - 2) line = ''"}'' \<and>
              CHR 0x22 \<notin> set (take (length line - 11) (drop 9 line))
      then Some (take (length line - 11) (drop 9 line))
      else None)\<close>

text \<open>
  A system that refuses nothing, with the home directory \<open>/home/u\<close> and one
  history file, of the fourth of January 2024, that holds the line \<open>line_a1\<close>.
\<close>

definition history_0104 :: string where
  "history_0104 = ''/home/u/.local/share/ccc/history/2024-01-04-1704326400-1704412800.jsonl''"

definition history_0105 :: string where
  "history_0105 = ''/home/u/.local/share/ccc/history/2024-01-05-1704412800-1704499200.jsonl''"

definition example_fs :: fsys where
  "example_fs =
     \<lparr>fs_files = [(history_0104, line_a1 @ [CHR 0x0A])],
      fs_dirs = {''/'', ''/home'', ''/home/u'', ''/home/u/.local'', ''/home/u/.local/share'',
                 ''/home/u/.local/share/ccc'', ''/home/u/.local/share/ccc/history''},
      stable = [history_0104 \<mapsto> line_a1 @ [CHR 0x0A]],
      XDG_DATA_HOME = [], HOME = ''/home/u'',
      mkdir_err = (\<lambda>p. None), open_err = (\<lambda>p. None), write_limit = (\<lambda>p. None),
      sync_err = (\<lambda>p. None), read_err = (\<lambda>p. None), readdir_err = (\<lambda>p. None)\<rparr>"

text \<open>
  The same system after a crash during a save: the history file of the fifth
  of January holds two complete lines and the beginning of a third.
\<close>

definition crashed_fs :: fsys where
  "crashed_fs =
     example_fs\<lparr>fs_files := [(history_0105, batch_bytes [line_a1, line_b2] @ line_cut)]\<rparr>"




section \<open>Saving to history\<close>







section \<open>Saving to history, as the specification words it\<close>









section \<open>The pipeline of \<open>main\<close>\<close>

text \<open>
  \<open>main\<close> runs three stages in goroutines that talk over three channels: file
  workers receive paths from \<open>fileChan\<close> and push lines to \<open>lineChan\<close>; line
  workers receive lines, price them and send records to \<open>costChan\<close>; the
  accumulator receives the records. The model is a transition system: a state
  has the place of \<open>main\<close> in its code, the contents of the channels, the states
  of the workers and of the accumulator, and one step is one action of one
  goroutine. The order of the steps of different goroutines is free. The
  capacity of the channels is left out: a send never waits, so the model has
  every order of steps the program has (and more).

  \<open>FileWork\<close> and \<open>LineWork\<close> are pairs of a path, or of a line, and the flag
  \<open>FromHistory\<close>.
\<close>

type_synonym FileWork = "string \<times> bool"
type_synonym LineWork = "string \<times> bool"

text \<open>
  A file worker waits for a path, or is in \<open>processJSONLFile\<close> with lines still
  to push, or has left its loop. A line worker waits for a line, or holds the
  record it is about to send, or has left its loop.
\<close>

datatype file_worker = FileIdle | FilePushing "LineWork list" | FileExited

datatype line_worker = LineIdle | LineSending CostRecord | LineExited

text \<open>
  \<open>main\<close> is sending paths, or has closed \<open>fileChan\<close> and waits in
  \<open>fileWg.Wait()\<close>, or has closed \<open>lineChan\<close> and waits in \<open>lineWg.Wait()\<close>, or has
  closed \<open>costChan\<close> and waits in \<open>accWg.Wait()\<close>, or is past all of that. The
  accumulator is in its loop over \<open>costChan\<close> or has done its second pass.
\<close>

datatype main_stage = Sending | WaitFileWorkers | WaitLineWorkers | WaitAccumulator | PastPipeline

datatype acc_stage = Looping | Folded

text \<open>
  The workers of a pool run the same code, so a pool is the multiset of the
  states of its workers. \<open>observed\<close> is not a variable of the program: it lists
  the records that the accumulator has received, in their order.
\<close>

record pipeline =
  main_at :: main_stage
  unsent :: "FileWork list"
  fileChan :: "FileWork list"
  fileChan_closed :: bool
  file_workers :: "file_worker multiset"
  lineChan :: "LineWork list"
  lineChan_closed :: bool
  line_workers :: "line_worker multiset"
  costChan :: "CostRecord list"
  costChan_closed :: bool
  acc_at :: acc_stage
  acc :: acc_state
  observed :: "CostRecord list"

text \<open>
  The start: \<open>main\<close> has the primary log files and then the history files to
  send, and has started the accumulator, \<open>runtime.NumCPU()\<close> line workers and
  \<open>min(runtime.NumCPU(), 4)\<close> file workers.
\<close>

definition numLineWorkers :: "nat \<Rightarrow> nat" where
  "numLineWorkers NumCPU = NumCPU"

definition numFileWorkers :: "nat \<Rightarrow> nat" where
  "numFileWorkers NumCPU = min NumCPU 4"

definition start_pipeline :: "string list \<Rightarrow> string list \<Rightarrow> nat \<Rightarrow> pipeline" where
  "start_pipeline jsonlFiles historyFiles NumCPU =
     \<lparr>main_at = Sending,
      unsent = map (\<lambda>path. (path, False)) jsonlFiles @ map (\<lambda>path. (path, True)) historyFiles,
      fileChan = [], fileChan_closed = False,
      file_workers = replicate_mset (numFileWorkers NumCPU) FileIdle,
      lineChan = [], lineChan_closed = False,
      line_workers = replicate_mset (numLineWorkers NumCPU) LineIdle,
      costChan = [], costChan_closed = False,
      acc_at = Looping, acc = init_acc, observed = []\<rparr>"

text \<open>
  \<open>processJSONLFile\<close>, as the lines that it sends on \<open>lineChan\<close>: the lines of the
  file that are not empty, up to the first line that does not fit the buffer,
  and none when the file cannot be opened. The largest line is the length of
  the buffer. Its error is only logged by the file worker, which calls it with
  a buffer of two megabytes.
\<close>

definition processJSONLFile :: "fsys \<Rightarrow> string \<Rightarrow> int \<Rightarrow> bool \<Rightarrow> LineWork list" where
  "processJSONLFile fs path len_buffer fromHistory =
     (case Open_read fs path of
        Inl err \<Rightarrow> []
      | Inr bytes \<Rightarrow>
          map (\<lambda>line. (line, fromHistory))
            (filter (\<lambda>line. length line \<noteq> 0) (fst (scan_lines len_buffer [] bytes))))"

definition len_buf :: int where
  "len_buf = 2 * 1024 * 1024"

definition file_worker_lines :: "fsys \<Rightarrow> FileWork \<Rightarrow> LineWork list" where
  "file_worker_lines fs work = processJSONLFile fs (fst work) len_buf (snd work)"

text \<open>
  The steps. The parameters are the group configuration, the lines that
  \<open>processJSONLFile\<close> pushes for a file (\<open>file_lines\<close>), and the body of a line
  worker up to its send (\<open>price\<close>): \<open>None\<close> for a line that does not decode or has
  no pricing, otherwise the record. A loop over a channel ends when the
  channel is closed and empty; a wait on a wait group ends when every worker
  of the group has left its loop.
\<close>

inductive step ::
  "GroupConfig \<Rightarrow> (FileWork \<Rightarrow> LineWork list) \<Rightarrow> (LineWork \<Rightarrow> CostRecord option) \<Rightarrow>
     pipeline \<Rightarrow> pipeline \<Rightarrow> bool"
  for cfg file_lines price where
  main_send:
    "main_at s = Sending \<Longrightarrow> unsent s = w # ws \<Longrightarrow>
     step cfg file_lines price s (s\<lparr>unsent := ws, fileChan := fileChan s @ [w]\<rparr>)"
| main_close_fileChan:
    "main_at s = Sending \<Longrightarrow> unsent s = [] \<Longrightarrow>
     step cfg file_lines price s (s\<lparr>fileChan_closed := True, main_at := WaitFileWorkers\<rparr>)"
| main_close_lineChan:
    "main_at s = WaitFileWorkers \<Longrightarrow> \<forall>x\<in>#file_workers s. x = FileExited \<Longrightarrow>
     step cfg file_lines price s (s\<lparr>lineChan_closed := True, main_at := WaitLineWorkers\<rparr>)"
| main_close_costChan:
    "main_at s = WaitLineWorkers \<Longrightarrow> \<forall>x\<in>#line_workers s. x = LineExited \<Longrightarrow>
     step cfg file_lines price s (s\<lparr>costChan_closed := True, main_at := WaitAccumulator\<rparr>)"
| main_past_accWg:
    "main_at s = WaitAccumulator \<Longrightarrow> acc_at s = Folded \<Longrightarrow>
     step cfg file_lines price s (s\<lparr>main_at := PastPipeline\<rparr>)"
| file_worker_receive:
    "file_workers s = others + {#FileIdle#} \<Longrightarrow> fileChan s = w # ws \<Longrightarrow>
     step cfg file_lines price s
       (s\<lparr>fileChan := ws, file_workers := others + {#FilePushing (file_lines w)#}\<rparr>)"
| file_worker_push:
    "file_workers s = others + {#FilePushing (l # ls)#} \<Longrightarrow>
     step cfg file_lines price s
       (s\<lparr>lineChan := lineChan s @ [l], file_workers := others + {#FilePushing ls#}\<rparr>)"
| file_worker_return:
    "file_workers s = others + {#FilePushing []#} \<Longrightarrow>
     step cfg file_lines price s (s\<lparr>file_workers := others + {#FileIdle#}\<rparr>)"
| file_worker_exit:
    "file_workers s = others + {#FileIdle#} \<Longrightarrow> fileChan s = [] \<Longrightarrow> fileChan_closed s \<Longrightarrow>
     step cfg file_lines price s (s\<lparr>file_workers := others + {#FileExited#}\<rparr>)"
| line_worker_receive:
    "line_workers s = others + {#LineIdle#} \<Longrightarrow> lineChan s = l # ls \<Longrightarrow>
     step cfg file_lines price s
       (s\<lparr>lineChan := ls,
          line_workers := others +
            {#(case price l of None \<Rightarrow> LineIdle | Some record \<Rightarrow> LineSending record)#}\<rparr>)"
| line_worker_send:
    "line_workers s = others + {#LineSending record#} \<Longrightarrow>
     step cfg file_lines price s
       (s\<lparr>costChan := costChan s @ [record], line_workers := others + {#LineIdle#}\<rparr>)"
| line_worker_exit:
    "line_workers s = others + {#LineIdle#} \<Longrightarrow> lineChan s = [] \<Longrightarrow> lineChan_closed s \<Longrightarrow>
     step cfg file_lines price s (s\<lparr>line_workers := others + {#LineExited#}\<rparr>)"
| accumulator_receive:
    "acc_at s = Looping \<Longrightarrow> costChan s = record # rs \<Longrightarrow>
     step cfg file_lines price s
       (s\<lparr>costChan := rs, acc := accumulate cfg (acc s) record, observed := observed s @ [record]\<rparr>)"
| accumulator_second_pass:
    "acc_at s = Looping \<Longrightarrow> costChan s = [] \<Longrightarrow> costChan_closed s \<Longrightarrow>
     map_iteration (maxCostByRequestID (acc s)) order \<Longrightarrow>
     step cfg file_lines price s (s\<lparr>acc := fold_retained cfg (acc s) order, acc_at := Folded\<rparr>)"

text \<open>The states that a run from a start can be in.\<close>

inductive reachable ::
  "GroupConfig \<Rightarrow> (FileWork \<Rightarrow> LineWork list) \<Rightarrow> (LineWork \<Rightarrow> CostRecord option) \<Rightarrow>
     pipeline \<Rightarrow> pipeline \<Rightarrow> bool"
  for cfg file_lines price s0 where
  reachable_start: "reachable cfg file_lines price s0 s0"
| reachable_step:
    "reachable cfg file_lines price s0 s \<Longrightarrow> step cfg file_lines price s s' \<Longrightarrow>
     reachable cfg file_lines price s0 s'"

text \<open>The records of a run: what the lines of the files give, file by file.\<close>

definition records_of_file ::
  "(FileWork \<Rightarrow> LineWork list) \<Rightarrow> (LineWork \<Rightarrow> CostRecord option) \<Rightarrow> FileWork \<Rightarrow> CostRecord list" where
  "records_of_file file_lines price w = List.map_filter price (file_lines w)"

definition records_of_run ::
  "(FileWork \<Rightarrow> LineWork list) \<Rightarrow> (LineWork \<Rightarrow> CostRecord option) \<Rightarrow> FileWork list
     \<Rightarrow> CostRecord list" where
  "records_of_run file_lines price ws = concat (map (records_of_file file_lines price) ws)"

text \<open>The records that are on their way to the accumulator in a state.\<close>

fun held_by_file_worker ::
  "(LineWork \<Rightarrow> CostRecord option) \<Rightarrow> file_worker \<Rightarrow> CostRecord multiset" where
  "held_by_file_worker price (FilePushing ls) = mset (List.map_filter price ls)"
| "held_by_file_worker price x = {#}"

fun held_by_line_worker :: "line_worker \<Rightarrow> CostRecord multiset" where
  "held_by_line_worker (LineSending record) = {#record#}"
| "held_by_line_worker x = {#}"

definition in_flight ::
  "(FileWork \<Rightarrow> LineWork list) \<Rightarrow> (LineWork \<Rightarrow> CostRecord option) \<Rightarrow> pipeline
     \<Rightarrow> CostRecord multiset" where
  "in_flight file_lines price s =
     mset (costChan s)
     + (\<Sum>x\<in>#line_workers s. held_by_line_worker x)
     + mset (List.map_filter price (lineChan s))
     + (\<Sum>x\<in>#file_workers s. held_by_file_worker price x)
     + mset (records_of_run file_lines price (fileChan s))
     + mset (records_of_run file_lines price (unsent s))"

text \<open>
  The invariant of the pipeline: no record is lost or made up; a channel is
  closed exactly from the stage of \<open>main\<close> that closes it on; a worker that has
  left its loop has left its channel closed and empty; a closed channel has
  no worker of the stage before it left; and the accumulator state is what
  its loop, and after the second pass the whole accumulator, makes of the
  records observed.
\<close>

definition pipeline_inv ::
  "GroupConfig \<Rightarrow> (FileWork \<Rightarrow> LineWork list) \<Rightarrow> (LineWork \<Rightarrow> CostRecord option) \<Rightarrow>
     CostRecord multiset \<Rightarrow> nat \<Rightarrow> nat \<Rightarrow> pipeline \<Rightarrow> bool" where
  "pipeline_inv cfg file_lines price run_records nf nl s =
     (mset (observed s) + in_flight file_lines price s = run_records
      \<and> size (file_workers s) = nf \<and> size (line_workers s) = nl
      \<and> (fileChan_closed s = (main_at s \<noteq> Sending))
      \<and> (main_at s \<noteq> Sending \<longrightarrow> unsent s = [])
      \<and> (FileExited \<in># file_workers s \<longrightarrow> fileChan_closed s \<and> fileChan s = [])
      \<and> (lineChan_closed s = (main_at s \<in> {WaitLineWorkers, WaitAccumulator, PastPipeline}))
      \<and> (lineChan_closed s \<longrightarrow> (\<forall>x\<in>#file_workers s. x = FileExited))
      \<and> (LineExited \<in># line_workers s \<longrightarrow> lineChan_closed s \<and> lineChan s = [])
      \<and> (costChan_closed s = (main_at s \<in> {WaitAccumulator, PastPipeline}))
      \<and> (costChan_closed s \<longrightarrow> (\<forall>x\<in>#line_workers s. x = LineExited))
      \<and> (acc_at s = Folded \<longrightarrow> costChan_closed s \<and> costChan s = [])
      \<and> (main_at s = PastPipeline \<longrightarrow> acc_at s = Folded)
      \<and> (acc_at s = Looping \<longrightarrow> acc s = accumulate_all cfg init_acc (observed s))
      \<and> (acc_at s = Folded \<longrightarrow>
            (\<exists>order. map_iteration (maxCostByRequestID (accumulate_all cfg init_acc (observed s))) order
               \<and> acc s = accumulator cfg order (observed s))))"

text \<open>
  An example run: the system \<open>example_fs\<close>, no primary log file, one processor,
  and a line worker that makes of the line \<open>line_a1\<close> the record \<open>record_a\<close>, of
  the request \<open>r1\<close>, and skips every other line. \<open>example_end\<close> is the state in
  which everything is done.
\<close>

definition example_price :: "LineWork \<Rightarrow> CostRecord option" where
  "example_price work =
     (if fst work = line_a1 then Some (record_a\<lparr>FromHistory := snd work, RawLine := fst work\<rparr>)
      else None)"

definition example_record :: CostRecord where
  "example_record = record_a\<lparr>FromHistory := True, RawLine := line_a1\<rparr>"

definition example_end :: pipeline where
  "example_end =
     \<lparr>main_at = PastPipeline, unsent = [],
      fileChan = [], fileChan_closed = True, file_workers = {#FileExited#},
      lineChan = [], lineChan_closed = True, line_workers = {#LineExited#},
      costChan = [], costChan_closed = True,
      acc_at = Folded, acc = accumulator config_day [''r1''] [example_record],
      observed = [example_record]\<rparr>"

chapter \<open>Properties\<close>

section \<open>Range filtering of history files\<close>

lemma filter_files_loop_eq:
  "filter_files_loop result files queryStart queryEnd =
     result @ filter (\<lambda>f. FileOverlapsRange f queryStart queryEnd) files"
  by (induction files arbitrary: result) auto

lemma FileOverlapsRange_iff:
  "FileOverlapsRange f queryStart queryEnd \<longleftrightarrow>
     (\<exists>fileStart fileEnd. ParseHistoryFilename f = Inr (fileStart, fileEnd) \<and>
        fileStart < queryEnd \<and> fileEnd > queryStart)"
  by (auto simp: FileOverlapsRange_def split: sum.splits)

text \<open>
  Claim C4. \<open>FilterFilesForRange\<close> keeps, in their order, exactly the files whose
  name parses to an interval \<open>[fileStart, fileEnd)\<close> with \<open>fileStart < queryEnd\<close> and
  \<open>fileEnd > queryStart\<close>. A file whose interval ends exactly at \<open>queryStart\<close> or
  starts exactly at \<open>queryEnd\<close> is not returned. The function takes the names and
  the two bounds only: it reads no file.
\<close>

theorem FilterFilesForRange_overlap:
  "FilterFilesForRange files queryStart queryEnd =
     filter (\<lambda>f. \<exists>fileStart fileEnd. ParseHistoryFilename f = Inr (fileStart, fileEnd) \<and>
                 fileStart < queryEnd \<and> fileEnd > queryStart) files
   \<and> (ParseHistoryFilename g = Inr (gStart, gEnd) \<and> (gEnd = queryStart \<or> gStart = queryEnd)
        \<longrightarrow> g \<notin> set (FilterFilesForRange files queryStart queryEnd))"
proof -
  have eq: "FilterFilesForRange files queryStart queryEnd =
     filter (\<lambda>f. \<exists>fileStart fileEnd. ParseHistoryFilename f = Inr (fileStart, fileEnd) \<and>
                 fileStart < queryEnd \<and> fileEnd > queryStart) files"
    by (simp add: FilterFilesForRange_def filter_files_loop_eq FileOverlapsRange_iff)
  have "g \<notin> set (FilterFilesForRange files queryStart queryEnd)"
    if "ParseHistoryFilename g = Inr (gStart, gEnd)" "gEnd = queryStart \<or> gStart = queryEnd"
    using that by (auto simp: eq)
  with eq show ?thesis by blast
qed

theorem FilterFilesForRange_overlap_witness:
  "ParseHistoryFilename ''2024-01-05-1704412800-1704499200.jsonl'' = Inr (1704412800, 1704499200)
   \<and> ''2024-01-05-1704412800-1704499200.jsonl'' \<notin>
       set (FilterFilesForRange
              [''2024-01-04-1704326400-1704412800.jsonl'',
               ''2024-01-05-1704412800-1704499200.jsonl'',
               ''2024-01-06-1704499200-1704585600.jsonl''] 1704499200 1704585600)
   \<and> FilterFilesForRange
              [''2024-01-04-1704326400-1704412800.jsonl'',
               ''2024-01-05-1704412800-1704499200.jsonl'',
               ''2024-01-06-1704499200-1704585600.jsonl''] 1704499200 1704585600
       = [''2024-01-06-1704499200-1704585600.jsonl'']"
proof -
  have p: "ParseHistoryFilename ''2024-01-05-1704412800-1704499200.jsonl'' = Inr (1704412800, 1704499200)"
    by code_simp
  have r: "FilterFilesForRange
              [''2024-01-04-1704326400-1704412800.jsonl'',
               ''2024-01-05-1704412800-1704499200.jsonl'',
               ''2024-01-06-1704499200-1704585600.jsonl''] 1704499200 1704585600
       = [''2024-01-06-1704499200-1704585600.jsonl'']"
    by code_simp
  from FilterFilesForRange_overlap
         [of "[''2024-01-04-1704326400-1704412800.jsonl'',
               ''2024-01-05-1704412800-1704499200.jsonl'',
               ''2024-01-06-1704499200-1704585600.jsonl'']" 1704499200 1704585600
             "''2024-01-05-1704412800-1704499200.jsonl''" 1704412800 1704499200] p
  have "''2024-01-05-1704412800-1704499200.jsonl'' \<notin>
       set (FilterFilesForRange
              [''2024-01-04-1704326400-1704412800.jsonl'',
               ''2024-01-05-1704412800-1704499200.jsonl'',
               ''2024-01-06-1704499200-1704585600.jsonl''] 1704499200 1704585600)"
    by blast
  with p r show ?thesis by blast
qed

section \<open>Deduplication by request identifier\<close>




lemma allRecords_accumulate:
  "allRecords (accumulate cfg st record) =
     (if RequestID record = None \<and> \<not> (UUID record \<noteq> [] \<and> UUID record \<in> seenUUIDs st)
      then allRecords st @ [record] else allRecords st)"
  by (simp add: accumulate_def track_claude_def fold_record_def Let_def split: option.splits)

lemma seenUUIDs_accumulate:
  "seenUUIDs (accumulate cfg st record) =
     (if RequestID record = None \<and> UUID record \<noteq> [] then insert (UUID record) (seenUUIDs st)
      else seenUUIDs st)"
  by (auto simp add: accumulate_def track_claude_def fold_record_def Let_def split: option.splits)

lemma metricsByGroup_accumulate:
  "metricsByGroup (accumulate cfg st record) =
     (if RequestID record = None \<and> \<not> (UUID record \<noteq> [] \<and> UUID record \<in> seenUUIDs st)
      then (metricsByGroup st)(BuildGroupKey cfg record \<mapsto>
              add_record (lookup_Metrics (metricsByGroup st) (BuildGroupKey cfg record)) record)
      else metricsByGroup st)"
  by (simp add: accumulate_def track_claude_def fold_record_def Let_def split: option.splits)










lemma metrics_of_snoc:
  "metrics_of cfg ms (records @ [r]) =
     (metrics_of cfg ms records)(BuildGroupKey cfg r \<mapsto>
        add_record (lookup_Metrics (metrics_of cfg ms records) (BuildGroupKey cfg r)) r)"
  by (induction records arbitrary: ms) simp_all

lemma fold_record_fields:
  "maxCostByRequestID (fold_record cfg st r) = maxCostByRequestID st"
  "allRecords (fold_record cfg st r) = allRecords st @ [r]"
  "metricsByGroup (fold_record cfg st r) =
     (metricsByGroup st)(BuildGroupKey cfg r \<mapsto>
        add_record (lookup_Metrics (metricsByGroup st) (BuildGroupKey cfg r)) r)"
  by (simp_all add: fold_record_def Let_def)


lemma folded_invariant_accumulate:
  "folded_invariant cfg st \<Longrightarrow> folded_invariant cfg (accumulate cfg st r)"
  by (simp add: folded_invariant_def allRecords_accumulate metricsByGroup_accumulate metrics_of_snoc)

lemma folded_invariant_accumulate_all:
  "folded_invariant cfg st \<Longrightarrow> folded_invariant cfg (accumulate_all cfg st records)"
  by (induction records arbitrary: st) (simp_all add: folded_invariant_accumulate)


lemma folded_invariant_init: "folded_invariant cfg init_acc"
  by (simp add: folded_invariant_def init_acc_def)

lemma fold_retained_maxCost:
  "maxCostByRequestID (fold_retained cfg st order) = maxCostByRequestID st"
  by (induction order arbitrary: st) (simp_all add: fold_record_fields split: option.splits)







section \<open>The merge of metrics\<close>

lemma fadd_commute: "fadd x y = fadd y x"
  by (cases x; cases y) (simp_all add: add.commute)

lemma fadd_zero_left: "valid_f64 x \<Longrightarrow> fadd (Fin 0) x = x"
  by (cases x) (simp_all add: valid_f64_def)

lemma fadd_zero_right: "valid_f64 x \<Longrightarrow> fadd x (Fin 0) = x"
  by (cases x) (simp_all add: valid_f64_def)

text \<open>
  The sums of \<open>0.1\<close>, \<open>0.2\<close> and \<open>0.3\<close> in binary64: \<open>0.1 + 0.2\<close> is
  \<open>0.30000000000000004\<close>, and adding \<open>0.3\<close> gives \<open>0.6000000000000001\<close>; \<open>0.2 + 0.3\<close>
  is \<open>0.5\<close>, and \<open>0.1 + 0.5\<close> is \<open>0.6\<close>.
\<close>

lemma fadd_01_02:
  "fadd (f64 7205759403792794 (- 56)) (f64 7205759403792794 (- 55)) = f64 5404319552844596 (- 54)"
  by code_simp

lemma fadd_03_03:
  "fadd (f64 5404319552844596 (- 54)) (f64 5404319552844595 (- 54)) = f64 5404319552844596 (- 53)"
  by code_simp

lemma fadd_02_03:
  "fadd (f64 7205759403792794 (- 55)) (f64 5404319552844595 (- 54)) = f64 1 (- 1)"
  by code_simp

lemma fadd_01_05:
  "fadd (f64 7205759403792794 (- 56)) (f64 1 (- 1)) = f64 5404319552844595 (- 53)"
  by code_simp

lemma f64_06_neq: "f64 5404319552844596 (- 53) \<noteq> f64 5404319552844595 (- 53)"
  by (simp add: f64_def)

lemma fadd_0_0: "fadd (Fin 0) (Fin 0) = Fin 0"
  by code_simp

lemma valid_f64_01: "valid_f64 (f64 7205759403792794 (- 56))"
  by code_simp

lemma valid_f64_0: "valid_f64 (Fin 0)"
  by code_simp

text \<open>
  Claim C8, as stated, fails: the merge is not associative. Merging the
  metrics with costs \<open>0.1\<close> and \<open>0.2\<close> and then the one with cost \<open>0.3\<close> gives the
  cost \<open>0.6000000000000001\<close>; merging the first with the merge of the other two
  gives \<open>0.6\<close>.
\<close>

theorem Metrics_merge_not_associative:
  "add_Metrics
     (add_Metrics (zero_Metrics\<lparr>mCost := f64 7205759403792794 (- 56)\<rparr>)
                  (zero_Metrics\<lparr>mCost := f64 7205759403792794 (- 55)\<rparr>))
     (zero_Metrics\<lparr>mCost := f64 5404319552844595 (- 54)\<rparr>)
   \<noteq>
   add_Metrics
     (zero_Metrics\<lparr>mCost := f64 7205759403792794 (- 56)\<rparr>)
     (add_Metrics (zero_Metrics\<lparr>mCost := f64 7205759403792794 (- 55)\<rparr>)
                  (zero_Metrics\<lparr>mCost := f64 5404319552844595 (- 54)\<rparr>))"
  by (simp add: add_Metrics_def zero_Metrics_def fadd_01_02 fadd_03_03 fadd_02_03 fadd_01_05
        f64_06_neq fadd_0_0)

text \<open>
  Claim C8, amended. The merge of \<open>Metrics\<close> is the pointwise addition; the zero
  value is its identity on both sides (for metrics whose cost fields are
  binary64 numbers), the merge is commutative, and it is associative on the
  four token counts. (On the five cost fields a sum is rounded, and the merge
  is not associative there.)
\<close>

theorem Metrics_merge_laws:
  "(valid_Metrics m \<longrightarrow> add_Metrics zero_Metrics m = m \<and> add_Metrics m zero_Metrics = m)
   \<and> add_Metrics a b = add_Metrics b a
   \<and> mInputTokens (add_Metrics (add_Metrics a b) c) = mInputTokens (add_Metrics a (add_Metrics b c))
   \<and> mOutputTokens (add_Metrics (add_Metrics a b) c) = mOutputTokens (add_Metrics a (add_Metrics b c))
   \<and> mCacheReadTokens (add_Metrics (add_Metrics a b) c)
       = mCacheReadTokens (add_Metrics a (add_Metrics b c))
   \<and> mCacheWriteTokens (add_Metrics (add_Metrics a b) c)
       = mCacheWriteTokens (add_Metrics a (add_Metrics b c))"
  by (simp add: add_Metrics_def zero_Metrics_def valid_Metrics_def fadd_zero_left fadd_zero_right
        fadd_commute add.commute add.assoc)

theorem Metrics_merge_laws_witness:
  "valid_Metrics (zero_Metrics\<lparr>mCost := f64 7205759403792794 (- 56), mInputTokens := 1200\<rparr>)
   \<and> add_Metrics zero_Metrics (zero_Metrics\<lparr>mCost := f64 7205759403792794 (- 56), mInputTokens := 1200\<rparr>)
       = zero_Metrics\<lparr>mCost := f64 7205759403792794 (- 56), mInputTokens := 1200\<rparr>"
proof -
  have v: "valid_Metrics (zero_Metrics\<lparr>mCost := f64 7205759403792794 (- 56), mInputTokens := 1200\<rparr>)"
    by (simp add: valid_Metrics_def zero_Metrics_def valid_f64_01 valid_f64_0)
  from Metrics_merge_laws
         [of "zero_Metrics\<lparr>mCost := f64 7205759403792794 (- 56), mInputTokens := 1200\<rparr>"] v
  show ?thesis by blast
qed

section \<open>Deduplication by UUID\<close>

lemma allRecords_accumulate_all:
  "allRecords (accumulate_all cfg st records) = allRecords st @ folded_in_loop (seenUUIDs st) records"
proof (induction records arbitrary: st)
  case Nil
  then show ?case by simp
next
  case (Cons r rs)
  show ?case
    by (simp add: Cons.IH allRecords_accumulate seenUUIDs_accumulate insert_absorb)
qed

lemma finite_loop_uuids: "finite (loop_uuids rs)"
  unfolding loop_uuids_def by (rule finite_subset[of _ "UUID ` set rs"]) auto

lemma loop_uuids_Cons:
  "loop_uuids (r # rs) =
     (if RequestID r = None \<and> UUID r \<noteq> [] then insert (UUID r) (loop_uuids rs) else loop_uuids rs)"
  unfolding loop_uuids_def by auto

lemma mset_folded_in_loop:
  assumes "\<forall>r\<in>set records. RequestID r = None \<and> UUID r \<noteq> [] \<longrightarrow> c r = f (UUID r)"
  shows "image_mset c (mset (folded_in_loop seen records)) =
           image_mset c (filter_mset (\<lambda>r. RequestID r = None \<and> UUID r = []) (mset records))
           + image_mset f (mset_set (loop_uuids records - seen))"
  using assms
proof (induction records arbitrary: seen)
  case Nil
  then show ?case by (simp add: loop_uuids_def)
next
  case (Cons r rs)
  from Cons.prems have ih: "\<And>seen. image_mset c (mset (folded_in_loop seen rs)) =
           image_mset c (filter_mset (\<lambda>r. RequestID r = None \<and> UUID r = []) (mset rs))
           + image_mset f (mset_set (loop_uuids rs - seen))"
    by (intro Cons.IH) simp
  consider (req) "RequestID r \<noteq> None"
    | (empty) "RequestID r = None" "UUID r = []"
    | (dup) "RequestID r = None" "UUID r \<noteq> []" "UUID r \<in> seen"
    | (new) "RequestID r = None" "UUID r \<noteq> []" "UUID r \<notin> seen"
    by blast
  then show ?case
  proof cases
    case req
    then show ?thesis by (auto simp add: ih loop_uuids_Cons)
  next
    case empty
    then show ?thesis by (simp add: ih loop_uuids_Cons)
  next
    case dup
    then have "insert (UUID r) (loop_uuids rs) - seen = loop_uuids rs - seen" by auto
    with dup show ?thesis by (simp add: ih loop_uuids_Cons)
  next
    case new
    have fin: "finite (loop_uuids rs - insert (UUID r) seen)"
      using finite_loop_uuids by blast
    have notin: "UUID r \<notin> loop_uuids rs - insert (UUID r) seen" by simp
    have eq: "insert (UUID r) (loop_uuids rs) - seen
              = insert (UUID r) (loop_uuids rs - insert (UUID r) seen)"
      using new(3) by auto
    have cr: "c r = f (UUID r)" using Cons.prems new by simp
    show ?thesis using new
      by (simp add: ih loop_uuids_Cons eq mset_set.insert[OF fin notin] cr)
  qed
qed


lemma loop_uuids_mset: "mset rs = mset rs' \<Longrightarrow> loop_uuids rs = loop_uuids rs'"
  unfolding loop_uuids_def by (metis set_mset_mset)

lemma duplicates_agree_fun:
  assumes "duplicates_agree cfg records"
  shows "\<exists>f. \<forall>r\<in>set records. RequestID r = None \<and> UUID r \<noteq> [] \<longrightarrow> contribution cfg r = f (UUID r)"
proof -
  let ?f = "\<lambda>u. case List.find (\<lambda>x. RequestID x = None \<and> UUID x = u) records of
                    None \<Rightarrow> undefined | Some x \<Rightarrow> contribution cfg x"
  have "contribution cfg r = ?f (UUID r)" if "r \<in> set records" "RequestID r = None" "UUID r \<noteq> []" for r
  proof (cases "List.find (\<lambda>x. RequestID x = None \<and> UUID x = UUID r) records")
    case None
    with that show ?thesis by (auto simp: find_None_iff)
  next
    case (Some x)
    then have "x \<in> set records" "RequestID x = None" "UUID x = UUID r"
      by (auto simp: find_Some_iff)
    with assms that have "contribution cfg r = contribution cfg x"
      unfolding duplicates_agree_def by metis
    with Some show ?thesis by simp
  qed
  then have "\<forall>r\<in>set records. RequestID r = None \<and> UUID r \<noteq> [] \<longrightarrow> contribution cfg r = ?f (UUID r)"
    by simp
  then show ?thesis by (rule exI[of _ ?f])
qed

lemma duplicates_agree_mset:
  "mset rs = mset rs' \<Longrightarrow> duplicates_agree cfg rs = duplicates_agree cfg rs'"
  unfolding duplicates_agree_def by (metis set_mset_mset)

lemma contributions_permuted:
  assumes "mset records = mset records'" "duplicates_agree cfg records"
  shows "image_mset (contribution cfg) (mset (folded_in_loop {} records))
         = image_mset (contribution cfg) (mset (folded_in_loop {} records'))"
proof -
  from duplicates_agree_fun[OF assms(2)] obtain f where
    f: "\<forall>r\<in>set records. RequestID r = None \<and> UUID r \<noteq> [] \<longrightarrow> contribution cfg r = f (UUID r)"
    by blast
  have s: "set records' = set records" using assms(1) by (metis set_mset_mset)
  from f s have f': "\<forall>r\<in>set records'. RequestID r = None \<and> UUID r \<noteq> [] \<longrightarrow> contribution cfg r = f (UUID r)"
    by simp
  show ?thesis
    unfolding mset_folded_in_loop[OF f] mset_folded_in_loop[OF f']
    using assms(1) loop_uuids_mset[OF assms(1)] by simp
qed

lemma filter_uuid_folded_in_loop:
  assumes "u \<noteq> []"
  shows "filter (\<lambda>x. UUID x = u) (folded_in_loop seen records) =
           (if u \<in> seen then []
            else (case List.find (\<lambda>x. RequestID x = None \<and> UUID x = u) records of
                    None \<Rightarrow> [] | Some r \<Rightarrow> [r]))"
  using assms
proof (induction records arbitrary: seen)
  case Nil
  then show ?case by simp
next
  case (Cons r rs)
  then show ?case by (auto split: option.splits)
qed


lemma dom_metrics_of: "dom (metrics_of cfg ms rs) = dom ms \<union> BuildGroupKey cfg ` set rs"
  by (induction rs arbitrary: ms) auto

lemma lookup_Metrics_upd:
  "lookup_Metrics (ms(k \<mapsto> v)) g = (if g = k then v else lookup_Metrics ms g)"
  by (simp add: lookup_Metrics_def)

lemma field_metrics_of:
  fixes fm :: "Metrics \<Rightarrow> go_int"
  assumes "\<And>m r. fm (add_record m r) = fm m + fm (metrics_part r)"
  shows "fm (lookup_Metrics (metrics_of cfg ms rs) g) =
           fm (lookup_Metrics ms g)
           + sum_mset (image_mset (\<lambda>c. fm (snd c))
               (filter_mset (\<lambda>c. fst c = g) (image_mset (contribution cfg) (mset rs))))"
proof (induction rs arbitrary: ms)
  case Nil
  then show ?case by simp
next
  case (Cons r rs)
  let ?k = "BuildGroupKey cfg r"
  let ?ms = "ms(?k \<mapsto> add_record (lookup_Metrics ms ?k) r)"
  let ?sum = "\<lambda>xs. sum_mset (image_mset (\<lambda>c. fm (snd c))
               (filter_mset (\<lambda>c. fst c = g) (image_mset (contribution cfg) (mset xs))))"
  have a: "fm (lookup_Metrics (metrics_of cfg ms (r # rs)) g) = fm (lookup_Metrics ?ms g) + ?sum rs"
    unfolding metrics_of.simps by (rule Cons.IH)
  have b: "fm (lookup_Metrics ?ms g) = fm (lookup_Metrics ms g) + (if ?k = g then fm (metrics_part r) else 0)"
    by (simp add: lookup_Metrics_upd assms)
  have c: "?sum (r # rs) = (if ?k = g then fm (metrics_part r) else 0) + ?sum rs"
    by (simp add: contribution_def)
  show ?case unfolding a b c by (simp add: add.assoc)
qed

lemma field_metrics_of_permuted:
  fixes fm :: "Metrics \<Rightarrow> go_int"
  assumes "\<And>m r. fm (add_record m r) = fm m + fm (metrics_part r)"
    and "image_mset (contribution cfg) (mset rs) = image_mset (contribution cfg) (mset rs')"
  shows "fm (lookup_Metrics (metrics_of cfg ms rs) g) = fm (lookup_Metrics (metrics_of cfg ms rs') g)"
  by (simp only: field_metrics_of[of fm, OF assms(1)] assms(2))

lemma dom_metrics_of_permuted:
  assumes "image_mset (contribution cfg) (mset rs) = image_mset (contribution cfg) (mset rs')"
  shows "dom (metrics_of cfg ms rs) = dom (metrics_of cfg ms rs')"
proof -
  have "BuildGroupKey cfg ` set rs = fst ` set_mset (image_mset (contribution cfg) (mset rs))" for rs
    by (force simp: contribution_def)
  then show ?thesis using assms by (simp only: dom_metrics_of)
qed

lemma token_fields_add_record:
  "mInputTokens (add_record m r) = mInputTokens m + mInputTokens (metrics_part r)"
  "mOutputTokens (add_record m r) = mOutputTokens m + mOutputTokens (metrics_part r)"
  "mCacheReadTokens (add_record m r) = mCacheReadTokens m + mCacheReadTokens (metrics_part r)"
  "mCacheWriteTokens (add_record m r) = mCacheWriteTokens m + mCacheWriteTokens (metrics_part r)"
  by (simp_all add: add_record_def metrics_part_def)

lemma loop_metrics:
  "metricsByGroup (accumulate_all cfg init_acc records)
     = metrics_of cfg Map.empty (folded_in_loop {} records)"
proof -
  have "folded_invariant cfg (accumulate_all cfg init_acc records)"
    by (intro folded_invariant_accumulate_all folded_invariant_init)
  then show ?thesis
    by (simp add: folded_invariant_def allRecords_accumulate_all init_acc_def)
qed

text \<open>
  Claim C5, amended. Among the records without request identifier that share
  a non-empty UUID \<open>u\<close>, the first to arrive, \<open>first\<close>, is the only one that is
  folded. When the records arrive in another order \<open>records'\<close>, and the records
  that share a UUID are copies of one event (same group, same amounts), the
  same contributions are folded (as a multiset), the same groups exist, and
  every group has the same four token totals. (The cost totals are sums of
  the same numbers in another order; see the counterexample.)
\<close>

theorem uuid_first_wins_and_permutation:
  "(u \<noteq> [] \<and> List.find (\<lambda>x. RequestID x = None \<and> UUID x = u) records = Some first
      \<longrightarrow> filter (\<lambda>x. UUID x = u) (allRecords (accumulate_all cfg init_acc records)) = [first])
   \<and> (mset records = mset records' \<and> duplicates_agree cfg records
      \<longrightarrow> image_mset (contribution cfg) (mset (allRecords (accumulate_all cfg init_acc records)))
          = image_mset (contribution cfg) (mset (allRecords (accumulate_all cfg init_acc records')))
        \<and> dom (metricsByGroup (accumulate_all cfg init_acc records))
          = dom (metricsByGroup (accumulate_all cfg init_acc records'))
        \<and> mInputTokens (lookup_Metrics (metricsByGroup (accumulate_all cfg init_acc records)) g)
          = mInputTokens (lookup_Metrics (metricsByGroup (accumulate_all cfg init_acc records')) g)
        \<and> mOutputTokens (lookup_Metrics (metricsByGroup (accumulate_all cfg init_acc records)) g)
          = mOutputTokens (lookup_Metrics (metricsByGroup (accumulate_all cfg init_acc records')) g)
        \<and> mCacheReadTokens (lookup_Metrics (metricsByGroup (accumulate_all cfg init_acc records)) g)
          = mCacheReadTokens (lookup_Metrics (metricsByGroup (accumulate_all cfg init_acc records')) g)
        \<and> mCacheWriteTokens (lookup_Metrics (metricsByGroup (accumulate_all cfg init_acc records)) g)
          = mCacheWriteTokens (lookup_Metrics (metricsByGroup (accumulate_all cfg init_acc records')) g))"
proof -
  have ar: "allRecords (accumulate_all cfg init_acc rs) = folded_in_loop {} rs" for rs
    by (simp add: allRecords_accumulate_all init_acc_def)
  have one: "filter (\<lambda>x. UUID x = u) (allRecords (accumulate_all cfg init_acc records)) = [first]"
    if "u \<noteq> []" "List.find (\<lambda>x. RequestID x = None \<and> UUID x = u) records = Some first"
    using that by (simp add: ar filter_uuid_folded_in_loop)
  have two: "image_mset (contribution cfg) (mset (folded_in_loop {} records))
          = image_mset (contribution cfg) (mset (folded_in_loop {} records'))"
    if "mset records = mset records'" "duplicates_agree cfg records"
    using that by (rule contributions_permuted)
  have three: "dom (metricsByGroup (accumulate_all cfg init_acc records))
          = dom (metricsByGroup (accumulate_all cfg init_acc records'))
        \<and> mInputTokens (lookup_Metrics (metricsByGroup (accumulate_all cfg init_acc records)) g)
          = mInputTokens (lookup_Metrics (metricsByGroup (accumulate_all cfg init_acc records')) g)
        \<and> mOutputTokens (lookup_Metrics (metricsByGroup (accumulate_all cfg init_acc records)) g)
          = mOutputTokens (lookup_Metrics (metricsByGroup (accumulate_all cfg init_acc records')) g)
        \<and> mCacheReadTokens (lookup_Metrics (metricsByGroup (accumulate_all cfg init_acc records)) g)
          = mCacheReadTokens (lookup_Metrics (metricsByGroup (accumulate_all cfg init_acc records')) g)
        \<and> mCacheWriteTokens (lookup_Metrics (metricsByGroup (accumulate_all cfg init_acc records)) g)
          = mCacheWriteTokens (lookup_Metrics (metricsByGroup (accumulate_all cfg init_acc records')) g)"
    if "mset records = mset records'" "duplicates_agree cfg records"
    unfolding loop_metrics
    using dom_metrics_of_permuted[OF two[OF that]]
      field_metrics_of_permuted[OF token_fields_add_record(1) two[OF that]]
      field_metrics_of_permuted[OF token_fields_add_record(2) two[OF that]]
      field_metrics_of_permuted[OF token_fields_add_record(3) two[OF that]]
      field_metrics_of_permuted[OF token_fields_add_record(4) two[OF that]]
    by blast
  show ?thesis
    using one two three unfolding ar by blast
qed

theorem uuid_first_wins_and_permutation_witness:
  "''a'' \<noteq> []
   \<and> List.find (\<lambda>x. RequestID x = None \<and> UUID x = ''a'') [record_dup, record_u2, record_dup_history]
       = Some record_dup
   \<and> mset [record_dup, record_u2, record_dup_history] = mset [record_dup_history, record_dup, record_u2]
   \<and> duplicates_agree config_day [record_dup, record_u2, record_dup_history]
   \<and> filter (\<lambda>x. UUID x = ''a'')
        (allRecords (accumulate_all config_day init_acc [record_dup, record_u2, record_dup_history]))
       = [record_dup]
   \<and> image_mset (contribution config_day)
        (mset (allRecords (accumulate_all config_day init_acc [record_dup, record_u2, record_dup_history])))
       = image_mset (contribution config_day)
        (mset (allRecords (accumulate_all config_day init_acc [record_dup_history, record_dup, record_u2])))
   \<and> mInputTokens (lookup_Metrics
        (metricsByGroup (accumulate_all config_day init_acc [record_dup, record_u2, record_dup_history]))
        ''2024-01-05'')
       = mInputTokens (lookup_Metrics
        (metricsByGroup (accumulate_all config_day init_acc [record_dup_history, record_dup, record_u2]))
        ''2024-01-05'')"
proof -
  have h1: "''a'' \<noteq> []" by simp
  have h2: "List.find (\<lambda>x. RequestID x = None \<and> UUID x = ''a'') [record_dup, record_u2, record_dup_history]
       = Some record_dup"
    by (simp add: record_dup_def blank_record_def)
  have h3: "mset [record_dup, record_u2, record_dup_history] = mset [record_dup_history, record_dup, record_u2]"
    by (simp add: add_mset_commute)
  have h4: "duplicates_agree config_day [record_dup, record_u2, record_dup_history]"
    by (simp add: duplicates_agree_def contribution_def metrics_part_def config_day_def
          record_dup_def record_dup_history_def record_u2_def blank_record_def)
  from uuid_first_wins_and_permutation
         [of "''a''" "[record_dup, record_u2, record_dup_history]" record_dup config_day
             "[record_dup_history, record_dup, record_u2]" "''2024-01-05''"] h1 h2 h3 h4
  show ?thesis by blast
qed


text \<open>
  The sums of the costs \<open>0.1\<close>, \<open>0.2\<close> and \<open>0.3\<close> of three records of one day, folded
  in the order of arrival and in the reverse order.
\<close>

lemma fadd_03_02:
  "fadd (f64 5404319552844595 (- 54)) (f64 7205759403792794 (- 55)) = f64 1 (- 1)"
  by (simp only: fadd_commute[of "f64 5404319552844595 (- 54)"] fadd_02_03)

lemma fadd_05_01:
  "fadd (f64 1 (- 1)) (f64 7205759403792794 (- 56)) = f64 5404319552844595 (- 53)"
  by (simp only: fadd_commute[of "f64 1 (- 1)"] fadd_01_05)

lemma fadd_0_01: "fadd (Fin 0) (f64 7205759403792794 (- 56)) = f64 7205759403792794 (- 56)"
  by (rule fadd_zero_left[OF valid_f64_01])

lemma valid_f64_03: "valid_f64 (f64 5404319552844595 (- 54))"
  by code_simp

lemma fadd_0_03: "fadd (Fin 0) (f64 5404319552844595 (- 54)) = f64 5404319552844595 (- 54)"
  by (rule fadd_zero_left[OF valid_f64_03])

lemma cost_123:
  "mCost (lookup_Metrics (metricsByGroup (accumulator config_day [] [record_u1, record_u2, record_u3]))
      ''2024-01-05'') = f64 5404319552844596 (- 53)"
  unfolding accumulator_def fold_retained.simps loop_metrics
  by (simp add: record_u1_def record_u2_def record_u3_def blank_record_def config_day_def
        lookup_Metrics_def add_record_def zero_Metrics_def
        fadd_0_01 fadd_01_02 fadd_03_03)

lemma cost_321:
  "mCost (lookup_Metrics (metricsByGroup (accumulator config_day [] [record_u3, record_u2, record_u1]))
      ''2024-01-05'') = f64 5404319552844595 (- 53)"
  unfolding accumulator_def fold_retained.simps loop_metrics
  by (simp add: record_u1_def record_u2_def record_u3_def blank_record_def config_day_def
        lookup_Metrics_def add_record_def zero_Metrics_def
        fadd_0_03 fadd_03_02 fadd_05_01)


text \<open>
  Claim C5, as stated, fails in two ways. The three records \<open>record_u1\<close>,
  \<open>record_u2\<close>, \<open>record_u3\<close> have no request identifier and different UUIDs;
  folded in this order the cost of their day is \<open>0.6000000000000001\<close>, in the
  reverse order it is \<open>0.6\<close>: the totals depend on the order of arrival. And two
  records with the same UUID but different costs leave the cost of the one
  that arrives first in the metrics.
\<close>

theorem folded_totals_depend_on_order:
  "mset [record_u1, record_u2, record_u3] = mset [record_u3, record_u2, record_u1]
   \<and> metricsByGroup (accumulator config_day [] [record_u1, record_u2, record_u3])
       \<noteq> metricsByGroup (accumulator config_day [] [record_u3, record_u2, record_u1])
   \<and> mset [record_dup, record_dup_other] = mset [record_dup_other, record_dup]
   \<and> allRecords (accumulator config_day [] [record_dup, record_dup_other]) = [record_dup]
   \<and> allRecords (accumulator config_day [] [record_dup_other, record_dup]) = [record_dup_other]
   \<and> Cost record_dup \<noteq> Cost record_dup_other"
proof -
  have "metricsByGroup (accumulator config_day [] [record_u1, record_u2, record_u3])
       \<noteq> metricsByGroup (accumulator config_day [] [record_u3, record_u2, record_u1])"
    using cost_123 cost_321 f64_06_neq by metis
  moreover have "allRecords (accumulator config_day [] [record_dup, record_dup_other]) = [record_dup]"
    unfolding accumulator_def fold_retained.simps allRecords_accumulate_all
    by (simp add: init_acc_def record_dup_def record_dup_other_def blank_record_def)
  moreover have "allRecords (accumulator config_day [] [record_dup_other, record_dup]) = [record_dup_other]"
    unfolding accumulator_def fold_retained.simps allRecords_accumulate_all
    by (simp add: init_acc_def record_dup_def record_dup_other_def blank_record_def)
  moreover have "Cost record_dup \<noteq> Cost record_dup_other"
    by (simp add: record_dup_def record_dup_other_def blank_record_def f64_def)
  ultimately show ?thesis by (simp add: add_mset_commute)
qed

section \<open>The history store: appending and loading\<close>

lemma content_update: "content (fs\<lparr>fs_files := AList.update k v (fs_files fs)\<rparr>) = (content fs)(k \<mapsto> v)"
  by (simp add: content_def update_conv')

lemma Write_effect:
  assumes "Write fs file b = (fs', r)"
  shows "\<exists>w. prefix w b \<and> (r = None \<longrightarrow> w = b) \<and>
           content fs' = (content fs)(file \<mapsto> old_bytes fs file @ w) \<and>
           fs_dirs fs' = fs_dirs fs \<and> stable fs' = stable fs \<and> same_env fs fs'"
proof (cases "write_limit fs file")
  case None
  with assms show ?thesis
    by (auto simp: Write_def Let_def content_def update_conv' old_bytes_def same_env_def)
next
  case (Some n)
  show ?thesis
  proof (cases "length b \<le> n")
    case True
    with Some assms show ?thesis
      by (auto simp: Write_def Let_def content_def update_conv' old_bytes_def same_env_def)
  next
    case False
    with Some assms have "content fs' = (content fs)(file \<mapsto> old_bytes fs file @ take n b)"
      "r = Some ErrIO" "fs_dirs fs' = fs_dirs fs" "stable fs' = stable fs" "same_env fs fs'"
      by (auto simp: Write_def Let_def content_def update_conv' old_bytes_def same_env_def)
    moreover have "prefix (take n b) b" by (rule take_is_prefix)
    ultimately show ?thesis by blast
  qed
qed

lemma write_lines_effect:
  assumes "write_lines fs file lines = (fs', r)" "content fs file = Some old"
  shows "\<exists>w. prefix w (batch_bytes lines) \<and> (r = None \<longrightarrow> w = batch_bytes lines) \<and>
           content fs' = (content fs)(file \<mapsto> old @ w) \<and>
           fs_dirs fs' = fs_dirs fs \<and> stable fs' = stable fs \<and> same_env fs fs'"
  using assms
proof (induction lines arbitrary: fs old)
  case Nil
  then have "fs' = fs" "r = None" by simp_all
  moreover have "content fs = (content fs)(file \<mapsto> old @ [])" using Nil(2) by (simp add: map_upd_triv)
  moreover have "same_env fs fs" by (simp add: same_env_def)
  ultimately show ?case by (intro exI[of _ "[]"]) (simp add: batch_bytes_def)
next
  case (Cons line lines)
  obtain fs1 r1 where w1: "Write fs file line = (fs1, r1)" by (cases "Write fs file line")
  from Write_effect[OF w1] Cons.prems(2) obtain a where a: "prefix a line" "r1 = None \<longrightarrow> a = line"
    "content fs1 = (content fs)(file \<mapsto> old @ a)" "fs_dirs fs1 = fs_dirs fs" "stable fs1 = stable fs"
    "same_env fs fs1"
    by (auto simp: old_bytes_def)
  show ?case
  proof (cases r1)
    case (Some e)
    with w1 Cons.prems(1) have "fs' = fs1" "r = Some e" by simp_all
    moreover have "prefix a (batch_bytes (line # lines))"
      using a(1) by (simp add: batch_bytes_def prefix_order.trans)
    ultimately show ?thesis using a by blast
  next
    case None
    with a have al: "a = line" by simp
    obtain fs2 r2 where w2: "Write fs1 file [CHR 0x0A] = (fs2, r2)" by (cases "Write fs1 file [CHR 0x0A]")
    have c1: "content fs1 file = Some (old @ line)" using a(3) al by simp
    from Write_effect[OF w2] c1 obtain b where b: "prefix b [CHR 0x0A]" "r2 = None \<longrightarrow> b = [CHR 0x0A]"
      "content fs2 = (content fs1)(file \<mapsto> (old @ line) @ b)" "fs_dirs fs2 = fs_dirs fs1"
      "stable fs2 = stable fs1" "same_env fs1 fs2"
      by (auto simp: old_bytes_def)
    have env2: "same_env fs fs2" using a(6) b(6) by (simp add: same_env_def)
    have c2: "content fs2 = (content fs)(file \<mapsto> old @ (line @ b))" using b(3) a(3) by simp
    show ?thesis
    proof (cases r2)
      case (Some e)
      with w1 w2 None Cons.prems(1) have "fs' = fs2" "r = Some e" by simp_all
      moreover have "prefix (line @ b) (batch_bytes (line # lines))"
        using b(1) by (simp add: batch_bytes_def prefix_order.trans)
      ultimately show ?thesis using c2 b(4,5) a(4,5) env2 by auto
    next
      case n2: None
      with b have bl: "b = [CHR 0x0A]" by simp
      from w1 w2 None n2 Cons.prems(1) have rest: "write_lines fs2 file lines = (fs', r)" by simp
      have c2': "content fs2 file = Some (old @ line @ [CHR 0x0A])" using c2 bl by simp
      from Cons.IH[OF rest c2'] obtain w where w: "prefix w (batch_bytes lines)"
        "r = None \<longrightarrow> w = batch_bytes lines"
        "content fs' = (content fs2)(file \<mapsto> (old @ line @ [CHR 0x0A]) @ w)"
        "fs_dirs fs' = fs_dirs fs2" "stable fs' = stable fs2" "same_env fs2 fs'"
        by blast
      have "prefix ((line @ [CHR 0x0A]) @ w) (batch_bytes (line # lines))"
        using w(1) by (simp add: batch_bytes_def)
      moreover have "r = None \<longrightarrow> (line @ [CHR 0x0A]) @ w = batch_bytes (line # lines)"
        using w(2) by (simp add: batch_bytes_def)
      moreover have "content fs' = (content fs)(file \<mapsto> old @ ((line @ [CHR 0x0A]) @ w))"
        using w(3) c2 by simp
      moreover have "same_env fs fs'" using env2 w(6) by (simp add: same_env_def)
      ultimately show ?thesis using w(4,5) b(4,5) a(4,5) by metis
    qed
  qed
qed


lemma same_env_trans: "same_env a b \<Longrightarrow> same_env b c \<Longrightarrow> same_env a c"
  by (simp add: same_env_def)

lemma same_env_refl: "same_env a a"
  by (simp add: same_env_def)

lemma dir_in_ancestors: "dir \<in> set (ancestors dir)"
  by (simp add: ancestors_def)

lemma MkdirAll_effect:
  assumes "MkdirAll fs dir = (fs', r)"
  shows "content fs' = content fs \<and> stable fs' = stable fs \<and> same_env fs fs' \<and>
         write_limit fs' = write_limit fs \<and> fs_dirs fs \<subseteq> fs_dirs fs' \<and>
         (r = None \<longrightarrow> dir \<in> fs_dirs fs') \<and> (r \<noteq> None \<longrightarrow> fs' = fs)"
  using assms
  by (auto simp: MkdirAll_def content_def same_env_def dir_in_ancestors split: option.splits)

lemma OpenFile_append_effect:
  assumes "OpenFile_append fs file = (fs', r)"
  shows "stable fs' = stable fs \<and> same_env fs fs' \<and> write_limit fs' = write_limit fs \<and>
         fs_dirs fs' = fs_dirs fs \<and>
         (r = None \<longrightarrow> content fs' = (content fs)(file \<mapsto> old_bytes fs file)) \<and>
         (r \<noteq> None \<longrightarrow> fs' = fs)"
  using assms
  by (auto simp: OpenFile_append_def content_def update_conv' same_env_def old_bytes_def map_upd_triv
      split: option.splits)

lemma Sync_effect:
  assumes "Sync fs file = (fs', r)"
  shows "content fs' = content fs \<and> same_env fs fs' \<and> fs_dirs fs' = fs_dirs fs \<and>
         (\<forall>p. p \<noteq> file \<longrightarrow> stable fs' p = stable fs p) \<and>
         (r = None \<longrightarrow> stable fs' file = content fs' file)"
  using assms
  by (auto simp: Sync_def content_def same_env_def split: option.splits)

lemma AppendRawLines_effect:
  assumes "AppendRawLines fs file lines = (fs', r)" "lines \<noteq> []"
  shows "\<exists>w. prefix w (batch_bytes lines) \<and>
           (r = None \<longrightarrow> w = batch_bytes lines \<and> stable fs' file = content fs' file \<and>
                         Dir file \<in> fs_dirs fs' \<and> content fs' file = Some (old_bytes fs file @ w)) \<and>
           (content fs' = (content fs)(file \<mapsto> old_bytes fs file @ w) \<or> content fs' = content fs) \<and>
           same_env fs fs' \<and> fs_dirs fs \<subseteq> fs_dirs fs' \<and>
           (\<forall>p. p \<noteq> file \<longrightarrow> stable fs' p = stable fs p)"
proof -
  obtain fs1 r1 where m: "MkdirAll fs (Dir file) = (fs1, r1)" by (cases "MkdirAll fs (Dir file)")
  note me = MkdirAll_effect[OF m]
  show ?thesis
  proof (cases r1)
    case (Some e)
    with m assms me have "fs' = fs" "r = Some e" by (auto simp: AppendRawLines_def)
    then show ?thesis by (intro exI[of _ "[]"]) (simp add: same_env_refl)
  next
    case None
    obtain fs2 r2 where op: "OpenFile_append fs1 file = (fs2, r2)" by (cases "OpenFile_append fs1 file")
    note oe = OpenFile_append_effect[OF op]
    have ob: "old_bytes fs1 file = old_bytes fs file" using me by (simp add: old_bytes_def)
    show ?thesis
    proof (cases r2)
      case (Some e)
      with m op None assms oe have "fs' = fs1" "r = Some e" by (auto simp: AppendRawLines_def)
      then show ?thesis using me by (intro exI[of _ "[]"]) simp
    next
      case n2: None
      obtain fs3 r3 where wl: "write_lines fs2 file lines = (fs3, r3)"
        by (cases "write_lines fs2 file lines")
      have c2: "content fs2 = (content fs)(file \<mapsto> old_bytes fs file)"
        using oe n2 me ob by simp
      then have c2f: "content fs2 file = Some (old_bytes fs file)" by simp
      from write_lines_effect[OF wl c2f] obtain w where w: "prefix w (batch_bytes lines)"
        "r3 = None \<longrightarrow> w = batch_bytes lines"
        "content fs3 = (content fs2)(file \<mapsto> old_bytes fs file @ w)"
        "fs_dirs fs3 = fs_dirs fs2" "stable fs3 = stable fs2" "same_env fs2 fs3"
        by blast
      have c3: "content fs3 = (content fs)(file \<mapsto> old_bytes fs file @ w)"
        using w(3) c2 by simp
      have env3: "same_env fs fs3"
        using me oe w(6) by (blast intro: same_env_trans)
      have d3: "fs_dirs fs \<subseteq> fs_dirs fs3" "Dir file \<in> fs_dirs fs3"
        using me oe w(4) None by auto
      have s3: "stable fs3 = stable fs" using me oe w(5) by simp
      show ?thesis
      proof (cases r3)
        case (Some e)
        with m op wl None n2 assms have "fs' = fs3" "r = Some e" by (auto simp: AppendRawLines_def)
        then show ?thesis using w(1) c3 env3 d3(1) s3 by (intro exI[of _ w]) simp
      next
        case n3: None
        with m op wl None n2 assms have sy: "Sync fs3 file = (fs', r)" by (auto simp: AppendRawLines_def)
        note se = Sync_effect[OF sy]
        have wb: "w = batch_bytes lines" using w(2) n3 by simp
        have "content fs' = (content fs)(file \<mapsto> old_bytes fs file @ w)" using se c3 by simp
        moreover have "same_env fs fs'" using env3 se by (blast intro: same_env_trans)
        moreover have "fs_dirs fs \<subseteq> fs_dirs fs'" "Dir file \<in> fs_dirs fs'" using d3 se by auto
        moreover have "\<forall>p. p \<noteq> file \<longrightarrow> stable fs' p = stable fs p" using se s3 by simp
        moreover have "r = None \<longrightarrow> stable fs' file = content fs' file" using se by simp
        ultimately show ?thesis using w(1) wb by (intro exI[of _ w]) simp
      qed
    qed
  qed
qed

text \<open>
  Claim C7. For a batch of lines that is not empty, \<open>AppendRawLines\<close> returns
  success only when the parent directory exists, the file (created when it
  was absent) holds its old bytes followed by each line of the batch with a
  newline, in the order of the batch, and these bytes have reached stable
  storage. Whatever it returns, the old bytes of the file are a prefix of its
  new bytes, which are a prefix of the old bytes followed by the batch: no
  byte that was in the file is overwritten or moved. No other file changes.
\<close>

theorem AppendRawLines_durable_append:
  assumes "AppendRawLines fs file lines = (fs', result)" and "lines \<noteq> []"
  shows "(result = None \<longrightarrow>
            content fs' file = Some (old_bytes fs file @ batch_bytes lines) \<and>
            stable fs' file = content fs' file \<and> Dir file \<in> fs_dirs fs')
         \<and> prefix (old_bytes fs file) (old_bytes fs' file)
         \<and> prefix (old_bytes fs' file) (old_bytes fs file @ batch_bytes lines)
         \<and> (\<forall>p. p \<noteq> file \<longrightarrow> content fs' p = content fs p)"
proof -
  from AppendRawLines_effect[OF assms] obtain w where w: "prefix w (batch_bytes lines)"
    "r = None \<longrightarrow> True"
    "result = None \<longrightarrow> w = batch_bytes lines \<and> stable fs' file = content fs' file \<and>
                         Dir file \<in> fs_dirs fs' \<and> content fs' file = Some (old_bytes fs file @ w)"
    "content fs' = (content fs)(file \<mapsto> old_bytes fs file @ w) \<or> content fs' = content fs"
    by blast
  from w(4) have "old_bytes fs' file = old_bytes fs file @ w \<or> old_bytes fs' file = old_bytes fs file"
    by (auto simp: old_bytes_def)
  then have "prefix (old_bytes fs file) (old_bytes fs' file)"
    "prefix (old_bytes fs' file) (old_bytes fs file @ batch_bytes lines)"
    using w(1) by auto
  moreover from w(4) have "\<forall>p. p \<noteq> file \<longrightarrow> content fs' p = content fs p" by auto
  ultimately show ?thesis using w(3) by blast
qed


lemma scan_lines_line:
  assumes "CHR 0x0A \<notin> set l" "int (length (cur @ l)) < maxTokenSize"
  shows "scan_lines maxTokenSize cur (l @ CHR 0x0A # rest) =
           (case scan_lines maxTokenSize [] rest of (ls, err) \<Rightarrow> (dropCR (cur @ l) # ls, err))"
  using assms
proof (induction l arbitrary: cur)
  case Nil
  then show ?case by simp
next
  case (Cons c l)
  from Cons.prems have "int (length cur) < maxTokenSize" "c \<noteq> CHR 0x0A" by auto
  moreover have "scan_lines maxTokenSize (cur @ [c]) (l @ CHR 0x0A # rest) =
           (case scan_lines maxTokenSize [] rest of (ls, err) \<Rightarrow> (dropCR ((cur @ [c]) @ l) # ls, err))"
    using Cons.prems by (intro Cons.IH) auto
  ultimately show ?case by simp
qed

lemma scan_lines_last:
  assumes "CHR 0x0A \<notin> set l" "int (length (cur @ l)) < maxTokenSize"
  shows "scan_lines maxTokenSize cur l =
           ((if cur @ l = [] then [] else [dropCR (cur @ l)]), None)"
  using assms
proof (induction l arbitrary: cur)
  case Nil
  then show ?case by simp
next
  case (Cons c l)
  from Cons.prems have "int (length cur) < maxTokenSize" "c \<noteq> CHR 0x0A" by auto
  moreover have "scan_lines maxTokenSize (cur @ [c]) l =
           ((if (cur @ [c]) @ l = [] then [] else [dropCR ((cur @ [c]) @ l)]), None)"
    using Cons.prems by (intro Cons.IH) auto
  ultimately show ?case by simp
qed

lemma scan_lines_batch:
  assumes "\<forall>l\<in>set ls. CHR 0x0A \<notin> set l \<and> int (length l) < maxTokenSize"
    "CHR 0x0A \<notin> set partial" "int (length partial) < maxTokenSize"
  shows "scan_lines maxTokenSize [] (batch_bytes ls @ partial) =
           (map dropCR ls @ (if partial = [] then [] else [dropCR partial]), None)"
  using assms(1)
proof (induction ls)
  case Nil
  then show ?case using scan_lines_last[of partial "[]" maxTokenSize] assms(2,3)
    by (simp add: batch_bytes_def)
next
  case (Cons l ls)
  have "batch_bytes (l # ls) @ partial = l @ CHR 0x0A # (batch_bytes ls @ partial)"
    by (simp add: batch_bytes_def)
  moreover have "scan_lines maxTokenSize [] (l @ CHR 0x0A # (batch_bytes ls @ partial)) =
      (case scan_lines maxTokenSize [] (batch_bytes ls @ partial) of
         (ls', err) \<Rightarrow> (dropCR ([] @ l) # ls', err))"
    using Cons.prems by (intro scan_lines_line) auto
  ultimately show ?case using Cons by simp
qed

lemma load_loop_eq: "load_loop unmarshal ids lines = ids \<union> uuids_of unmarshal lines"
proof (induction lines arbitrary: ids)
  case Nil
  then show ?case by (simp add: uuids_of_def)
next
  case (Cons l ls)
  have "uuids_of unmarshal (l # ls) =
          (if l \<noteq> [] \<and> (\<exists>u. unmarshal l = Some u \<and> u \<noteq> []) then {the (unmarshal l)} else {})
          \<union> uuids_of unmarshal ls"
    by (auto simp: uuids_of_def)
  then show ?case using Cons by (auto split: option.splits)
qed

lemma LoadUUIDs_batch:
  assumes "content fs file = Some (batch_bytes ls @ partial)" "read_err fs file = None"
    "\<forall>l\<in>set ls. CHR 0x0A \<notin> set l \<and> int (length l) < load_maxTokenSize"
    "CHR 0x0A \<notin> set partial" "int (length partial) < load_maxTokenSize"
  shows "LoadUUIDs unmarshal fs file =
           (uuids_of unmarshal (map dropCR ls @ (if partial = [] then [] else [dropCR partial])), None)"
proof -
  have "Open_read fs file = Inr (batch_bytes ls @ partial)"
    using assms(1,2) by (simp add: Open_read_def)
  moreover note scan_lines_batch[OF assms(3,4,5)]
  ultimately show ?thesis by (simp add: LoadUUIDs_def load_loop_eq)
qed


text \<open>
  Claim C6. When the same raw line, which decodes to the UUID \<open>uuid\<close>, is
  appended twice to a file that did not exist, the file holds both copies and
  \<open>LoadUUIDs\<close> returns the set with the one element \<open>uuid\<close> and no error. When a
  file holds complete lines followed by a line that was cut short and does
  not decode, \<open>LoadUUIDs\<close> returns the UUIDs of the complete lines and no error.
\<close>

theorem LoadUUIDs_set_semantics_and_crash_tolerance:
  "(content fs file = None \<and> AppendRawLines fs file [line] = (fs1, None) \<and>
    AppendRawLines fs1 file [line] = (fs2, None) \<and> read_err fs file = None \<and>
    raw_line load_maxTokenSize line \<and> line \<noteq> [] \<and> unmarshal line = Some uuid \<and> uuid \<noteq> []
      \<longrightarrow> content fs2 file = Some (line @ [CHR 0x0A] @ line @ [CHR 0x0A]) \<and>
          LoadUUIDs unmarshal fs2 file = ({uuid}, None))
   \<and> (content fs' file' = Some (batch_bytes complete @ partial) \<and> read_err fs' file' = None \<and>
       list_all (raw_line load_maxTokenSize) complete \<and>
       CHR 0x0A \<notin> set partial \<and> int (length partial) < load_maxTokenSize \<and>
       unmarshal (dropCR partial) = None
      \<longrightarrow> LoadUUIDs unmarshal fs' file' = (uuids_of unmarshal complete, None))"
proof -
  have a: "content fs2 file = Some (line @ [CHR 0x0A] @ line @ [CHR 0x0A]) \<and>
          LoadUUIDs unmarshal fs2 file = ({uuid}, None)"
    if h: "content fs file = None" "AppendRawLines fs file [line] = (fs1, None)"
      "AppendRawLines fs1 file [line] = (fs2, None)" "read_err fs file = None"
      "raw_line load_maxTokenSize line" "line \<noteq> []" "unmarshal line = Some uuid" "uuid \<noteq> []"
  proof -
    from AppendRawLines_effect[OF h(2)] have c1: "content fs1 file = Some (batch_bytes [line])"
      and e1: "same_env fs fs1"
      using h(1) by (auto simp: old_bytes_def)
    from AppendRawLines_effect[OF h(3)] have c2: "content fs2 file = Some (batch_bytes [line] @ batch_bytes [line])"
      and e2: "same_env fs1 fs2"
      using c1 by (auto simp: old_bytes_def)
    have r2: "read_err fs2 file = None" using e1 e2 h(4) by (simp add: same_env_def)
    have c2': "content fs2 file = Some (batch_bytes [line, line] @ [])"
      using c2 by (simp add: batch_bytes_def)
    have ok: "\<forall>l\<in>set [line, line]. CHR 0x0A \<notin> set l \<and> int (length l) < load_maxTokenSize"
      using h(5) by (simp add: raw_line_def)
    have "LoadUUIDs unmarshal fs2 file = (uuids_of unmarshal (map dropCR [line, line] @ []), None)"
      using LoadUUIDs_batch[OF c2' r2 ok] by (simp add: load_maxTokenSize_def)
    moreover have "dropCR line = line" using h(5) by (simp add: raw_line_def)
    moreover have "uuids_of unmarshal [line, line] = {uuid}"
      using h(6,7,8) by (auto simp: uuids_of_def)
    ultimately show ?thesis using c2 by (simp add: batch_bytes_def)
  qed
  have b: "LoadUUIDs unmarshal fs' file' = (uuids_of unmarshal complete, None)"
    if h: "content fs' file' = Some (batch_bytes complete @ partial)" "read_err fs' file' = None"
      "list_all (raw_line load_maxTokenSize) complete"
      "CHR 0x0A \<notin> set partial" "int (length partial) < load_maxTokenSize"
      "unmarshal (dropCR partial) = None"
  proof -
    have ok: "\<forall>l\<in>set complete. CHR 0x0A \<notin> set l \<and> int (length l) < load_maxTokenSize"
      using h(3) by (simp add: raw_line_def list_all_iff)
    have dc: "map dropCR complete = complete"
      using h(3) by (simp add: raw_line_def list_all_iff map_idI)
    have "uuids_of unmarshal (complete @ (if partial = [] then [] else [dropCR partial]))
            = uuids_of unmarshal complete"
      using h(6) by (auto simp: uuids_of_def)
    then show ?thesis using LoadUUIDs_batch[OF h(1,2) ok h(4,5), of unmarshal] dc by simp
  qed
  from a b show ?thesis by blast
qed


lemma Write_unlimited:
  assumes "write_limit fs file = None"
  shows "\<exists>fs1. Write fs file b = (fs1, None) \<and> write_limit fs1 file = None"
  using assms by (simp add: Write_def Let_def)

lemma write_lines_succeeds:
  "write_limit fs file = None \<Longrightarrow> snd (write_lines fs file lines) = None"
proof (induction lines arbitrary: fs)
  case Nil
  then show ?case by simp
next
  case (Cons l ls)
  from Write_unlimited[OF Cons.prems] obtain fs1 where
    w1: "Write fs file l = (fs1, None)" "write_limit fs1 file = None" by blast
  from Write_unlimited[OF w1(2)] obtain fs2 where
    w2: "Write fs1 file [CHR 0x0A] = (fs2, None)" "write_limit fs2 file = None" by blast
  from Cons.IH[OF w2(2)] show ?case by (simp add: w1(1) w2(1))
qed

lemma AppendRawLines_succeeds:
  assumes "no_refusal fs file"
  shows "snd (AppendRawLines fs file lines) = None"
proof (cases "lines = []")
  case True
  then show ?thesis by (simp add: AppendRawLines_def)
next
  case False
  obtain fs1 where m: "MkdirAll fs (Dir file) = (fs1, None)"
    using assms by (simp add: MkdirAll_def no_refusal_def)
  from MkdirAll_effect[OF m] assms have e1: "open_err fs1 file = None" "write_limit fs1 file = None"
    "sync_err fs1 file = None"
    by (simp_all add: same_env_def no_refusal_def)
  obtain fs2 where op: "OpenFile_append fs1 file = (fs2, None)"
    using e1(1) by (cases "content fs1 file") (simp_all add: OpenFile_append_def)
  from OpenFile_append_effect[OF op] e1 have e2: "write_limit fs2 file = None" "sync_err fs2 file = None"
    by (simp_all add: same_env_def)
  obtain fs3 where wl: "write_lines fs2 file lines = (fs3, None)"
    using write_lines_succeeds[OF e2(1), of lines] by (cases "write_lines fs2 file lines") simp
  have "\<exists>old. content fs2 file = Some old"
    using OpenFile_append_effect[OF op] by simp
  then obtain old where "content fs2 file = Some old" by blast
  from write_lines_effect[OF wl this] e2(2) have e3: "sync_err fs3 file = None"
    by (auto simp: same_env_def)
  have "snd (Sync fs3 file) = None" using e3 by (simp add: Sync_def)
  then show ?thesis using False by (simp add: AppendRawLines_def m op wl)
qed

lemma Write_limit_None:
  assumes "Write fs file b = (fs', r)" "write_limit fs p = None"
  shows "write_limit fs' p = None"
  using assms by (auto simp: Write_def Let_def split: option.splits if_splits)

lemma write_lines_limit_None:
  assumes "write_lines fs file lines = (fs', r)" "write_limit fs p = None"
  shows "write_limit fs' p = None"
  using assms
proof (induction lines arbitrary: fs)
  case Nil
  then show ?case by simp
next
  case (Cons l ls)
  obtain fs1 r1 where w1: "Write fs file l = (fs1, r1)" by (cases "Write fs file l")
  obtain fs2 r2 where w2: "Write fs1 file [CHR 0x0A] = (fs2, r2)" by (cases "Write fs1 file [CHR 0x0A]")
  have l1: "write_limit fs1 p = None" using Write_limit_None[OF w1 Cons.prems(2)] .
  have l2: "write_limit fs2 p = None" using Write_limit_None[OF w2 l1] .
  show ?case
  proof (cases r1)
    case (Some e)
    with w1 Cons.prems(1) have "fs' = fs1" by simp
    with l1 show ?thesis by simp
  next
    case None
    show ?thesis
    proof (cases r2)
      case (Some e)
      with w1 w2 None Cons.prems(1) have "fs' = fs2" by simp
      with l2 show ?thesis by simp
    next
      case n2: None
      with w1 w2 None Cons.prems(1) have "write_lines fs2 file ls = (fs', r)" by simp
      from Cons.IH[OF this l2] show ?thesis .
    qed
  qed
qed

lemma AppendRawLines_limit_None:
  assumes "AppendRawLines fs file lines = (fs', r)" "write_limit fs p = None"
  shows "write_limit fs' p = None"
proof (cases "lines = []")
  case True
  with assms show ?thesis by (simp add: AppendRawLines_def)
next
  case False
  obtain fs1 r1 where m: "MkdirAll fs (Dir file) = (fs1, r1)" by (cases "MkdirAll fs (Dir file)")
  obtain fs2 r2 where op: "OpenFile_append fs1 file = (fs2, r2)" by (cases "OpenFile_append fs1 file")
  obtain fs3 r3 where wl: "write_lines fs2 file lines = (fs3, r3)" by (cases "write_lines fs2 file lines")
  obtain fs4 r4 where sy: "Sync fs3 file = (fs4, r4)" by (cases "Sync fs3 file")
  have l1: "write_limit fs1 p = None" using MkdirAll_effect[OF m] assms(2) by simp
  have l2: "write_limit fs2 p = None" using OpenFile_append_effect[OF op] l1 by simp
  have l3: "write_limit fs3 p = None" using write_lines_limit_None[OF wl l2] .
  have l4: "write_limit fs4 p = None" using sy l3 by (auto simp: Sync_def split: option.splits)
  have "fs' = fs1 \<or> fs' = fs2 \<or> fs' = fs3 \<or> fs' = fs4"
    using assms(1) False m op wl sy
    by (auto simp: AppendRawLines_def split: option.splits)
  with l1 l2 l3 l4 show ?thesis by blast
qed

lemma AppendRawLines_no_refusal:
  assumes "AppendRawLines fs file lines = (fs', r)" "no_refusal fs p"
  shows "no_refusal fs' p"
proof -
  have env: "same_env fs fs'"
  proof (cases "lines = []")
    case True
    with assms(1) show ?thesis by (simp add: AppendRawLines_def same_env_refl)
  next
    case False
    from AppendRawLines_effect[OF assms(1) False] show ?thesis by blast
  qed
  have "write_limit fs' p = None"
    using AppendRawLines_limit_None[OF assms(1)] assms(2) by (simp add: no_refusal_def)
  with env assms(2) show ?thesis by (simp add: no_refusal_def same_env_def)
qed

lemma no_refusal_example: "no_refusal example_fs file"
  by (simp add: no_refusal_def example_fs_def)

theorem AppendRawLines_durable_append_witness:
  "[line_b2, line_a1] \<noteq> []
   \<and> snd (AppendRawLines example_fs history_0104 [line_b2, line_a1]) = None
   \<and> content (fst (AppendRawLines example_fs history_0104 [line_b2, line_a1])) history_0104
       = Some ((line_a1 @ [CHR 0x0A]) @ line_b2 @ [CHR 0x0A] @ line_a1 @ [CHR 0x0A])
   \<and> stable (fst (AppendRawLines example_fs history_0104 [line_b2, line_a1])) history_0104
       = content (fst (AppendRawLines example_fs history_0104 [line_b2, line_a1])) history_0104"
proof -
  have ne: "[line_b2, line_a1] \<noteq> []" by simp
  have ok: "snd (AppendRawLines example_fs history_0104 [line_b2, line_a1]) = None"
    by (rule AppendRawLines_succeeds[OF no_refusal_example])
  then have e: "AppendRawLines example_fs history_0104 [line_b2, line_a1]
      = (fst (AppendRawLines example_fs history_0104 [line_b2, line_a1]), None)"
    by (simp add: prod_eq_iff)
  have old: "old_bytes example_fs history_0104 = line_a1 @ [CHR 0x0A]"
    by (simp add: old_bytes_def content_def example_fs_def)
  from AppendRawLines_durable_append[OF e ne] ok old show ?thesis
    by (simp add: batch_bytes_def)
qed


lemma example_unmarshal_lines:
  "example_unmarshal line_a1 = Some ''a1''"
  "example_unmarshal line_b2 = Some ''b2''"
  "example_unmarshal line_cut = None"
  by (simp_all add: example_unmarshal_def line_a1_def line_b2_def line_cut_def)

lemma raw_line_examples:
  "raw_line load_maxTokenSize line_a1"
  "raw_line load_maxTokenSize line_b2"
  by (simp_all add: raw_line_def dropCR_def line_a1_def line_b2_def load_maxTokenSize_def)

theorem LoadUUIDs_set_semantics_and_crash_tolerance_witness:
  "content example_fs history_0105 = None
   \<and> snd (AppendRawLines example_fs history_0105 [line_a1]) = None
   \<and> snd (AppendRawLines (fst (AppendRawLines example_fs history_0105 [line_a1])) history_0105 [line_a1])
       = None
   \<and> raw_line load_maxTokenSize line_a1 \<and> example_unmarshal line_a1 = Some ''a1''
   \<and> content (fst (AppendRawLines (fst (AppendRawLines example_fs history_0105 [line_a1]))
                   history_0105 [line_a1])) history_0105
       = Some (line_a1 @ [CHR 0x0A] @ line_a1 @ [CHR 0x0A])
   \<and> LoadUUIDs example_unmarshal
         (fst (AppendRawLines (fst (AppendRawLines example_fs history_0105 [line_a1]))
                 history_0105 [line_a1])) history_0105
       = ({''a1''}, None)
   \<and> content crashed_fs history_0105 = Some (batch_bytes [line_a1, line_b2] @ line_cut)
   \<and> example_unmarshal (dropCR line_cut) = None
   \<and> LoadUUIDs example_unmarshal crashed_fs history_0105 = ({''a1'', ''b2''}, None)"
proof -
  let ?fs1 = "fst (AppendRawLines example_fs history_0105 [line_a1])"
  let ?fs2 = "fst (AppendRawLines ?fs1 history_0105 [line_a1])"
  have fresh: "content example_fs history_0105 = None"
    by (simp add: content_def example_fs_def history_0104_def history_0105_def)
  have s1: "snd (AppendRawLines example_fs history_0105 [line_a1]) = None"
    by (rule AppendRawLines_succeeds[OF no_refusal_example])
  then have a1: "AppendRawLines example_fs history_0105 [line_a1] = (?fs1, None)"
    by (simp add: prod_eq_iff)
  have nr1: "no_refusal ?fs1 history_0105"
    by (rule AppendRawLines_no_refusal[OF a1 no_refusal_example])
  have s2: "snd (AppendRawLines ?fs1 history_0105 [line_a1]) = None"
    by (rule AppendRawLines_succeeds[OF nr1])
  then have a2: "AppendRawLines ?fs1 history_0105 [line_a1] = (?fs2, None)"
    by (simp add: prod_eq_iff)
  have re: "read_err example_fs history_0105 = None" by (simp add: example_fs_def)
  have cut: "example_unmarshal (dropCR line_cut) = None"
    by (simp add: dropCR_def line_cut_def example_unmarshal_def)
  have cc: "content crashed_fs history_0105 = Some (batch_bytes [line_a1, line_b2] @ line_cut)"
    by (simp add: crashed_fs_def content_def)
  have rc: "read_err crashed_fs history_0105 = None" by (simp add: crashed_fs_def example_fs_def)
  have la: "list_all (raw_line load_maxTokenSize) [line_a1, line_b2]"
    by (simp add: raw_line_examples)
  have pc: "CHR 0x0A \<notin> set line_cut" "int (length line_cut) < load_maxTokenSize"
    by (simp_all add: line_cut_def load_maxTokenSize_def)
  have ne: "line_a1 \<noteq> []" "''a1'' \<noteq> []" "line_b2 \<noteq> []"
    by (simp_all add: line_a1_def line_b2_def)
  have u: "uuids_of example_unmarshal [line_a1, line_b2] = {''a1'', ''b2''}"
    using ne by (auto simp: uuids_of_def example_unmarshal_lines)
  from LoadUUIDs_set_semantics_and_crash_tolerance
         [of example_fs history_0105 line_a1 ?fs1 ?fs2 example_unmarshal "''a1''"
             crashed_fs history_0105 "[line_a1, line_b2]" line_cut]
    fresh a1 a2 re raw_line_examples(1) ne(1,2) example_unmarshal_lines(1) cc rc la pc cut
  have "content ?fs2 history_0105 = Some (line_a1 @ [CHR 0x0A] @ line_a1 @ [CHR 0x0A]) \<and>
        LoadUUIDs example_unmarshal ?fs2 history_0105 = ({''a1''}, None) \<and>
        LoadUUIDs example_unmarshal crashed_fs history_0105
          = (uuids_of example_unmarshal [line_a1, line_b2], None)"
    by blast
  then show ?thesis
    using fresh s1 s2 raw_line_examples(1) example_unmarshal_lines(1) cc cut u by simp
qed

section \<open>Saving to history\<close>












lemma HistoryFilename_same_day:
  "Date_of loc t = Date_of loc t' \<Longrightarrow> HistoryFilename loc t = HistoryFilename loc t'"
  by (simp add: HistoryFilename_def)




subsection \<open>A save on the example system\<close>

lemma HistoryFilename_eval:
  assumes "Date_of loc t = (y, m, d)"
    and "time_Date y m d 0 0 0 0 loc = s"
    and "Date_of loc s = (y', m', d')"
    and "Clock_of loc s = (h, mi, se)"
    and "time_Date y' m' (d' + 1) h mi se (UnixNano s mod 1000000000) loc = e"
  shows "HistoryFilename loc t =
           Format_date loc s @ ''-'' @ FormatInt (Unix s) @ ''-'' @ FormatInt (Unix e) @ ''.jsonl''"
  using assms by (simp add: HistoryFilename_def AddDate_days_def Let_def)

lemma Format_date_eval:
  "Date_of loc t = (y, m, d) \<Longrightarrow>
     Format_date loc t = pad_int y 4 @ ''-'' @ pad_int m 2 @ ''-'' @ pad_int d 2"
  by (simp add: Format_date_def)














section \<open>Records without identifiers\<close>
















section \<open>The round trip of history file names\<close>

lemma HistoryFilename_1969:
  "HistoryFilename UTC (Time (- 1000000000)) = ''1969-12-31--86400-0.jsonl''"
proof -
  have d: "Date_of UTC (Time (- 1000000000)) = (1969, 12, 31)" by code_simp
  have s: "time_Date 1969 12 31 0 0 0 0 UTC = Time (- 86400000000000)" by code_simp
  have d2: "Date_of UTC (Time (- 86400000000000)) = (1969, 12, 31)" by code_simp
  have c2: "Clock_of UTC (Time (- 86400000000000)) = (0, 0, 0)" by code_simp
  have e: "time_Date 1969 12 (31 + 1) 0 0 0 (UnixNano (Time (- 86400000000000)) mod 1000000000) UTC
           = Time 0" by code_simp
  have f: "pad_int 1969 4 @ ''-'' @ pad_int 12 2 @ ''-'' @ pad_int 31 2 = ''1969-12-31''" by code_simp
  have u1: "FormatInt (Unix (Time (- 86400000000000))) = ''-86400''" by code_simp
  have u2: "FormatInt (Unix (Time 0)) = ''0''" by code_simp
  show ?thesis
    unfolding HistoryFilename_eval[OF d s d2 c2 e] Format_date_eval[OF d2] f u1 u2
    by simp
qed

lemma HistoryFilename_zero:
  "HistoryFilename UTC zero_Time = ''0001-01-01--62135596800--62135510400.jsonl''"
proof -
  have z: "zero_Time = Time (- 62135596800000000000)" by (simp add: zero_Time_def)
  have d: "Date_of UTC (Time (- 62135596800000000000)) = (1, 1, 1)" by code_simp
  have s: "time_Date 1 1 1 0 0 0 0 UTC = Time (- 62135596800000000000)" by code_simp
  have c2: "Clock_of UTC (Time (- 62135596800000000000)) = (0, 0, 0)" by code_simp
  have e: "time_Date 1 1 (1 + 1) 0 0 0 (UnixNano (Time (- 62135596800000000000)) mod 1000000000) UTC
           = Time (- 62135510400000000000)" by code_simp
  have f: "pad_int 1 4 @ ''-'' @ pad_int 1 2 @ ''-'' @ pad_int 1 2 = ''0001-01-01''" by code_simp
  have u1: "FormatInt (Unix (Time (- 62135596800000000000))) = ''-62135596800''" by code_simp
  have u2: "FormatInt (Unix (Time (- 62135510400000000000))) = ''-62135510400''" by code_simp
  show ?thesis
    unfolding z HistoryFilename_eval[OF d s d c2 e] Format_date_eval[OF d] f u1 u2
    by simp
qed

text \<open>
  Claim C3 says that \<open>ParseHistoryFilename\<close> recovers the interval from the name
  that \<open>HistoryFilename\<close> gives, for any time. It does not for a day that starts
  before 1970. For the last second of 1969, UTC, the name is
  \<open>1969-12-31--86400-0.jsonl\<close>: the start \<open>-86400\<close> is written with its minus sign,
  the split at the dashes gives an empty fourth piece, and the parse fails
  with a syntax error. The same happens for the zero time, which a log line
  without a timestamp has.
\<close>

theorem HistoryFilename_round_trip_fails_before_1970:
  "HistoryFilename UTC (Time (- 1000000000)) = ''1969-12-31--86400-0.jsonl''
   \<and> Split ''1969-12-31--86400-0'' (CHR ''-'') = [''1969'', ''12'', ''31'', [], ''86400'', ''0'']
   \<and> ParseHistoryFilename (HistoryFilename UTC (Time (- 1000000000))) = Inl ErrSyntax
   \<and> HistoryFilename UTC zero_Time = ''0001-01-01--62135596800--62135510400.jsonl''
   \<and> ParseHistoryFilename (HistoryFilename UTC zero_Time) = Inl ErrSyntax"
proof -
  have a: "Split ''1969-12-31--86400-0'' (CHR ''-'') = [''1969'', ''12'', ''31'', [], ''86400'', ''0'']"
    by code_simp
  have b: "ParseHistoryFilename ''1969-12-31--86400-0.jsonl'' = Inl ErrSyntax" by code_simp
  have c: "ParseHistoryFilename ''0001-01-01--62135596800--62135510400.jsonl'' = Inl ErrSyntax"
    by code_simp
  show ?thesis by (simp only: HistoryFilename_1969 HistoryFilename_zero a b c simp_thms)
qed

end
